theory Spec2Isabelle
  imports Main
begin

section \<open>Path utilities of the Go standard library\<close>

text \<open>
  The package builds every candidate with \<^verbatim>\<open>filepath.Join\<close> and normalises the file name
  with \<^verbatim>\<open>filepath.Base\<close> and \<^verbatim>\<open>filepath.Ext\<close>. They are modelled here as package
  \<^verbatim>\<open>path/filepath\<close> defines them on Unix: the separator is the byte \<open>/\<close>, there is no volume
  name, and a Go string is a list of bytes.
\<close>

definition IsPathSeparator :: "char \<Rightarrow> bool" where
  "IsPathSeparator c = (c = CHR ''/'')"

text \<open>
  The inner loop of the \<open>..\<close> case of \<^verbatim>\<open>Clean\<close>:
  \<^verbatim>\<open>for out.w > dotdot && !os.IsPathSeparator(out.index(out.w)) { out.w-- }\<close>
\<close>

fun backtrack :: "string \<Rightarrow> nat \<Rightarrow> nat \<Rightarrow> nat" where
  "backtrack out dotdot w =
     (if w > dotdot \<and> \<not> IsPathSeparator (out ! w) then backtrack out dotdot (w - 1) else w)"

declare backtrack.simps [simp del]

text \<open>
  The \<open>..\<close> element: remove the last element of the buffer when there is one above
  \<open>dotdot\<close>; otherwise, on a path that is not rooted, append \<open>..\<close> and move \<open>dotdot\<close>
  behind it; on a rooted path do nothing. The buffer \<open>out\<close> holds the \<open>out.w\<close> bytes
  written so far.
\<close>

definition dotdot_elem :: "bool \<Rightarrow> string \<times> nat \<Rightarrow> string \<times> nat" where
  "dotdot_elem rooted st =
     (case st of (out, dotdot) \<Rightarrow>
        if length out > dotdot then
          (take (backtrack out dotdot (length out - 1)) out, dotdot)
        else if \<not> rooted then
          (let out' = (if length out > 0 then out @ ''/'' else out) @ ''..''
           in (out', length out'))
        else (out, dotdot))"

text \<open>
  A real path element: add a slash if needed, then copy the element up to the next
  separator.
\<close>

definition real_elem :: "bool \<Rightarrow> string \<Rightarrow> string \<times> nat \<Rightarrow> string \<times> nat" where
  "real_elem rooted path st =
     (case st of (out, dotdot) \<Rightarrow>
        ((if rooted \<and> length out \<noteq> 1 \<or> \<not> rooted \<and> length out \<noteq> 0 then out @ ''/'' else out)
           @ takeWhile (\<lambda>c. \<not> IsPathSeparator c) path,
         dotdot))"

text \<open>
  The main loop of \<^verbatim>\<open>Clean\<close>, on the part of the path not yet read
  (\<^verbatim>\<open>path[r:]\<close>), with the buffer and \<open>dotdot\<close> as state.
\<close>

function clean_loop :: "bool \<Rightarrow> string \<Rightarrow> string \<times> nat \<Rightarrow> string \<times> nat" where
  "clean_loop rooted [] st = st"
| "clean_loop rooted (c # rest) st =
     (if IsPathSeparator c then clean_loop rooted rest st
      else if c = CHR ''.'' \<and> (rest = [] \<or> IsPathSeparator (hd rest)) then
        clean_loop rooted rest st
      else if c = CHR ''.'' \<and> hd rest = CHR ''.''
              \<and> (tl rest = [] \<or> IsPathSeparator (hd (tl rest))) then
        clean_loop rooted (tl rest) (dotdot_elem rooted st)
      else
        clean_loop rooted (dropWhile (\<lambda>c. \<not> IsPathSeparator c) rest)
          (real_elem rooted (c # rest) st))"
  by pat_completeness auto
termination
  by (relation "measure (\<lambda>(rooted, path, st). length path)")
     (auto simp: length_dropWhile_le less_Suc_eq_le)

declare clean_loop.simps(2) [simp del]

definition Clean :: "string \<Rightarrow> string" where
  "Clean path =
     (if path = [] then ''.''
      else
        let rooted = IsPathSeparator (hd path);
            st = clean_loop rooted (if rooted then tl path else path)
                   (if rooted then (''/'', 1) else ([], 0))
        in if fst st = [] then ''.'' else fst st)"

text \<open>\<^verbatim>\<open>strings.Join(elems, sep)\<close>.\<close>

fun strings_Join :: "string list \<Rightarrow> string \<Rightarrow> string" where
  "strings_Join [] sep = []"
| "strings_Join [e] sep = e"
| "strings_Join (e # es) sep = e @ sep @ strings_Join es sep"

text \<open>
  \<^verbatim>\<open>filepath.Join\<close>: empty leading elements are skipped; the rest is joined with
  the separator and cleaned; if every element is empty the result is the empty string.
\<close>

fun Join :: "string list \<Rightarrow> string" where
  "Join [] = []"
| "Join (e # elem) = (if e \<noteq> [] then Clean (strings_Join (e # elem) ''/'') else Join elem)"

text \<open>
  \<^verbatim>\<open>filepath.Base\<close>: the last element of the path, after trailing slashes are
  stripped; \<open>.\<close> for the empty path and \<open>/\<close> for a path of slashes only.
\<close>

definition Base :: "string \<Rightarrow> string" where
  "Base path =
     (if path = [] then ''.''
      else
        let stripped = rev (dropWhile IsPathSeparator (rev path));
            last_elem = rev (takeWhile (\<lambda>c. \<not> IsPathSeparator c) (rev stripped))
        in if last_elem = [] then ''/'' else last_elem)"

text \<open>
  \<^verbatim>\<open>filepath.Ext\<close>: scan from the end down to the last separator and return the
  suffix that starts at the first dot met; \<open>ext_scan path n\<close> is the loop at index
  \<open>i = n - 1\<close>.
\<close>

fun ext_scan :: "string \<Rightarrow> nat \<Rightarrow> string" where
  "ext_scan path 0 = []"
| "ext_scan path (Suc i) =
     (if IsPathSeparator (path ! i) then []
      else if path ! i = CHR ''.'' then drop i path
      else ext_scan path i)"

definition Ext :: "string \<Rightarrow> string" where
  "Ext path = ext_scan path (length path)"

section \<open>The environment of a call\<close>

datatype fileExists = NotExists | BaseExists | FileExists

text \<open>
  The package reads its surroundings through four function variables, which the tests
  replace: \<^verbatim>\<open>xdgConfigHome\<close>, \<^verbatim>\<open>userHomeDir\<close>, \<^verbatim>\<open>dirExists\<close> and
  \<^verbatim>\<open>checkFile\<close>. A call sees one fixed outcome of each; \<^verbatim>\<open>userHomeDir\<close>
  returning an error is \<open>None\<close>.
\<close>

record env =
  xdgConfigHome :: string
  userHomeDir :: "string option"
  dirExists :: "string \<Rightarrow> bool"
  checkFile :: "string \<Rightarrow> fileExists"

section \<open>Directory lookup\<close>

text \<open>
  An \<^verbatim>\<open>iter.Seq[string]\<close> is a function that takes the consumer's \<^verbatim>\<open>yield\<close>.
  The consumer's own variables are a state \<open>'s\<close> that \<open>yield\<close> reads and updates; it
  answers whether the producer may go on.
\<close>

type_synonym 's yield = "string \<Rightarrow> 's \<Rightarrow> bool \<times> 's"

definition listHome :: "'s yield \<Rightarrow> string \<Rightarrow> string \<Rightarrow> 's \<Rightarrow> 's" where
  "listHome yield home app s =
     (case yield (Join [home, ''lib'', app]) s of
        (ok, s1) \<Rightarrow>
          if ok then snd (yield (Join [home, ''.'' @ app]) s1) else s1)"

definition listWithXDG :: "env \<Rightarrow> 's yield \<Rightarrow> string \<Rightarrow> string \<Rightarrow> 's \<Rightarrow> 's" where
  "listWithXDG e yield app xdg s =
     (case yield (Join [xdg, app]) s of
        (ok, s1) \<Rightarrow>
          if ok then
            (case userHomeDir e of
               Some home \<Rightarrow> listHome yield home app s1
             | None \<Rightarrow> s1)
          else s1)"

definition listWithNoXDG :: "env \<Rightarrow> 's yield \<Rightarrow> string \<Rightarrow> 's \<Rightarrow> 's" where
  "listWithNoXDG e yield app s =
     (case userHomeDir e of
        Some home \<Rightarrow>
          (case yield (Join [home, ''.config'', app]) s of
             (ok, s1) \<Rightarrow> if ok then listHome yield home app s1 else s1)
      | None \<Rightarrow> s)"

definition list :: "env \<Rightarrow> string \<Rightarrow> 's yield \<Rightarrow> 's \<Rightarrow> 's" where
  "list e app yield s =
     (let xdg = xdgConfigHome e
      in if xdg \<noteq> [] then listWithXDG e yield app xdg s else listWithNoXDG e yield app s)"

text \<open>
  The body of the \<^verbatim>\<open>for dir := range list(app)\<close> loop of \<^verbatim>\<open>Dir\<close>. Its state is
  the variable \<^verbatim>\<open>fallback\<close> and the value returned from inside the loop, if any;
  returning from the loop is answering \<open>False\<close> to the producer.
\<close>

type_synonym dir_state = "string \<times> (string \<times> bool) option"

definition Dir_body :: "env \<Rightarrow> dir_state yield" where
  "Dir_body e dir s =
     (case s of (fallback, ret) \<Rightarrow>
        if dirExists e dir then (False, (fallback, Some (dir, True)))
        else (True, (if fallback = [] then dir else fallback, ret)))"

definition Dir :: "env \<Rightarrow> string \<Rightarrow> string \<times> bool" where
  "Dir e app =
     (case list e app (Dir_body e) ([], None) of
        (fallback, Some r) \<Rightarrow> r
      | (fallback, None) \<Rightarrow>
          if fallback = [] then (let dir = ''.'' @ app in (dir, dirExists e dir))
          else (fallback, False))"

text \<open>
  The candidate sequence of a lookup is what a consumer that never declines receives,
  as in the tests: \<^verbatim>\<open>for path := range cfg.List() { paths = append(paths, path) }\<close>.
\<close>

definition append_all :: "string list yield" where
  "append_all path paths = (True, paths @ [path])"

definition candidates :: "env \<Rightarrow> string \<Rightarrow> string list" where
  "candidates e app = list e app append_all []"

section \<open>File lookup\<close>

record fileConfig =
  cfg_App :: string
  cfg_File :: string

definition newFileConfig :: "string \<Rightarrow> string \<Rightarrow> fileConfig" where
  "newFileConfig app file =
     (let file1 = Base file;
          file2 = (if file1 = ''.'' \<or> file1 = ''/'' then app else file1)
      in \<lparr>cfg_App = app, cfg_File = file2\<rparr>)"

definition fileConfig_ListHome :: "fileConfig \<Rightarrow> 's yield \<Rightarrow> string \<Rightarrow> 's \<Rightarrow> 's" where
  "fileConfig_ListHome cfg yield home s =
     (case yield (Join [home, ''lib'', cfg_App cfg, cfg_File cfg]) s of
        (ok, s1) \<Rightarrow>
          if ok then
            (case yield (Join [home, ''.'' @ cfg_App cfg, cfg_File cfg]) s1 of
               (ok2, s2) \<Rightarrow>
                 if ok2 then
                   snd (yield (Join [home, ''.'' @ cfg_App cfg @ Ext (cfg_File cfg)]) s2)
                 else s2)
          else s1)"

definition fileConfig_ListWithXDG :: "env \<Rightarrow> fileConfig \<Rightarrow> 's yield \<Rightarrow> string \<Rightarrow> 's \<Rightarrow> 's" where
  "fileConfig_ListWithXDG e cfg yield xdg s =
     (case yield (Join [xdg, cfg_App cfg, cfg_File cfg]) s of
        (ok, s1) \<Rightarrow>
          if ok then
            (case userHomeDir e of
               Some home \<Rightarrow> fileConfig_ListHome cfg yield home s1
             | None \<Rightarrow> s1)
          else s1)"

definition fileConfig_ListWithNoXDG :: "env \<Rightarrow> fileConfig \<Rightarrow> 's yield \<Rightarrow> 's \<Rightarrow> 's" where
  "fileConfig_ListWithNoXDG e cfg yield s =
     (case userHomeDir e of
        Some home \<Rightarrow>
          (case yield (Join [home, ''.config'', cfg_App cfg, cfg_File cfg]) s of
             (ok, s1) \<Rightarrow> if ok then fileConfig_ListHome cfg yield home s1 else s1)
      | None \<Rightarrow> s)"

definition fileConfig_List :: "env \<Rightarrow> fileConfig \<Rightarrow> 's yield \<Rightarrow> 's \<Rightarrow> 's" where
  "fileConfig_List e cfg yield s =
     (let xdg = xdgConfigHome e
      in if xdg \<noteq> [] then fileConfig_ListWithXDG e cfg yield xdg s
         else fileConfig_ListWithNoXDG e cfg yield s)"

text \<open>
  The body of the \<^verbatim>\<open>for file := range cfg.List()\<close> loop of \<^verbatim>\<open>File\<close>, with the
  variable \<^verbatim>\<open>fallback\<close> and the value returned from inside the loop as state.
\<close>

type_synonym file_state = "string \<times> (string \<times> fileExists) option"

definition File_body :: "env \<Rightarrow> file_state yield" where
  "File_body e file s =
     (case s of (fallback, ret) \<Rightarrow>
        let check = checkFile e file
        in if check = FileExists then (False, (fallback, Some (file, check)))
           else (True, (if fallback = [] then file else fallback, ret)))"

definition File :: "env \<Rightarrow> string \<Rightarrow> string \<Rightarrow> string \<times> fileExists" where
  "File e app name =
     (let cfg = newFileConfig app name
      in case fileConfig_List e cfg (File_body e) ([], None) of
           (fallback, Some r) \<Rightarrow> r
         | (fallback, None) \<Rightarrow>
             if fallback = [] then
               (let file = Join [''.'' @ app, cfg_File cfg];
                    check = checkFile e file
                in if check = FileExists then (file, check)
                   else (let fallback1 = ''.'' @ app @ Ext (cfg_File cfg)
                         in (fallback1, checkFile e fallback1)))
             else (fallback, checkFile e fallback))"

definition cfg_candidates :: "env \<Rightarrow> fileConfig \<Rightarrow> string list" where
  "cfg_candidates e cfg = fileConfig_List e cfg append_all []"

definition file_candidates :: "env \<Rightarrow> string \<Rightarrow> string \<Rightarrow> string list" where
  "file_candidates e app name = fileConfig_List e (newFileConfig app name) append_all []"

section \<open>Consumers and traces\<close>

text \<open>
  What a producer that offers the paths \<open>cs\<close> in order does to a consumer: it stops at
  the first path the consumer declines.
\<close>

fun offer :: "'s yield \<Rightarrow> string list \<Rightarrow> 's \<Rightarrow> 's" where
  "offer yield [] s = s"
| "offer yield (c # cs) s =
     (case yield c s of (ok, s1) \<Rightarrow> if ok then offer yield cs s1 else s1)"

text \<open>
  A consumer with a log: every call of \<open>yield\<close> is recorded with the path offered and
  the answer given.
\<close>

definition logged :: "'s yield \<Rightarrow> ((string \<times> bool) list \<times> 's) yield" where
  "logged yield path ls =
     (case ls of (log, s) \<Rightarrow>
        case yield path s of (ok, s1) \<Rightarrow> (ok, (log @ [(path, ok)], s1)))"

section \<open>Test environments\<close>

text \<open>
  The environments the package's tests build by replacing the four function variables:
  an XDG base, a home directory or none, the directories that exist and the status of
  the files that are not \<^verbatim>\<open>NotExists\<close>.
\<close>

definition mock_env :: "string \<Rightarrow> string option \<Rightarrow> string list \<Rightarrow> (string \<times> fileExists) list \<Rightarrow> env" where
  "mock_env xdg home dirs files =
     \<lparr>xdgConfigHome = xdg, userHomeDir = home,
      dirExists = (\<lambda>dir. dir \<in> set dirs),
      checkFile = (\<lambda>path. case map_of files path of Some status \<Rightarrow> status | None \<Rightarrow> NotExists)\<rparr>"

section \<open>Cleaned paths\<close>

text \<open>
  The states the loop of \<^verbatim>\<open>Clean\<close> can be in. A real element is a path element that
  is neither empty nor \<open>.\<close> nor \<open>..\<close>. The buffer starts as \<open>/\<close> on a rooted path and
  empty otherwise; it grows by \<open>..\<close> elements, on a path that is not rooted and only
  while nothing stands above \<open>dotdot\<close>, and by real elements.
\<close>

definition real_name :: "string \<Rightarrow> bool" where
  "real_name e = (e \<noteq> [] \<and> CHR ''/'' \<notin> set e \<and> e \<noteq> ''.'' \<and> e \<noteq> ''..'')"

definition clean_init :: "bool \<Rightarrow> string \<times> nat" where
  "clean_init rooted = (if rooted then (''/'', 1) else ([], 0))"

definition with_slash :: "bool \<Rightarrow> string \<Rightarrow> string" where
  "with_slash rooted out =
     (if rooted \<and> length out \<noteq> 1 \<or> \<not> rooted \<and> length out \<noteq> 0 then out @ ''/'' else out)"

inductive canon :: "bool \<Rightarrow> string \<times> nat \<Rightarrow> bool" for rooted :: bool where
  canon_init: "canon rooted (clean_init rooted)"
| canon_dotdot: "canon rooted (out, dd) \<Longrightarrow> \<not> rooted \<Longrightarrow> length out \<le> dd \<Longrightarrow>
     canon rooted (with_slash rooted out @ ''..'', length (with_slash rooted out @ ''..''))"
| canon_real: "canon rooted (out, dd) \<Longrightarrow> real_name e \<Longrightarrow>
     canon rooted (with_slash rooted out @ e, dd)"

section \<open>Properties of the path utilities\<close>

lemma Clean_nonempty: "Clean p \<noteq> []"
  by (simp add: Clean_def Let_def)

lemma Join_nonempty: "\<exists>x \<in> set es. x \<noteq> [] \<Longrightarrow> Join es \<noteq> []"
  by (induction es) (auto simp: Clean_nonempty)

lemma takeWhile_append_stop:
  "\<not> P y \<Longrightarrow> takeWhile P (xs @ y # ys) = takeWhile P xs"
  by (induction xs) auto

lemma dropWhile_append_stop:
  "\<not> P y \<Longrightarrow> dropWhile P (xs @ y # ys) = dropWhile P xs @ y # ys"
  by (induction xs) auto

lemma real_elem_append_sep:
  "real_elem rooted (p @ CHR ''/'' # q) st = real_elem rooted p st"
  by (simp add: real_elem_def IsPathSeparator_def takeWhile_append_stop split: prod.splits)

lemma clean_loop_slash:
  "clean_loop rooted (CHR ''/'' # rest) st = clean_loop rooted rest st"
  by (simp add: clean_loop.simps(2) IsPathSeparator_def)

lemma clean_loop_dot:
  "rest = [] \<or> hd rest = CHR ''/'' \<Longrightarrow>
   clean_loop rooted (CHR ''.'' # rest) st = clean_loop rooted rest st"
  by (simp add: clean_loop.simps(2) IsPathSeparator_def)

lemma clean_loop_dotdot:
  "rest \<noteq> [] \<Longrightarrow> hd rest = CHR ''.'' \<Longrightarrow> tl rest = [] \<or> hd (tl rest) = CHR ''/'' \<Longrightarrow>
   clean_loop rooted (CHR ''.'' # rest) st = clean_loop rooted (tl rest) (dotdot_elem rooted st)"
  by (simp add: clean_loop.simps(2) IsPathSeparator_def)

lemma clean_loop_real:
  "c \<noteq> CHR ''/'' \<Longrightarrow>
   \<not> (c = CHR ''.'' \<and> (rest = [] \<or> hd rest = CHR ''/'')) \<Longrightarrow>
   \<not> (c = CHR ''.'' \<and> hd rest = CHR ''.'' \<and> (tl rest = [] \<or> hd (tl rest) = CHR ''/'')) \<Longrightarrow>
   clean_loop rooted (c # rest) st =
     clean_loop rooted (dropWhile (\<lambda>c. \<not> IsPathSeparator c) rest) (real_elem rooted (c # rest) st)"
  by (auto simp add: clean_loop.simps(2) IsPathSeparator_def)

lemma clean_loop_append_sep:
  "clean_loop rooted (p @ CHR ''/'' # q) st =
     clean_loop rooted (CHR ''/'' # q) (clean_loop rooted p st)"
proof (induction rooted p st rule: clean_loop.induct)
  case (1 rooted st)
  show ?case by simp
next
  case (2 rooted c rest st)
  let ?q = "CHR ''/'' # q"
  consider (slash) "c = CHR ''/''"
    | (dot) "c \<noteq> CHR ''/''" "c = CHR ''.'' \<and> (rest = [] \<or> hd rest = CHR ''/'')"
    | (dotdot) "c \<noteq> CHR ''/''" "\<not> (c = CHR ''.'' \<and> (rest = [] \<or> hd rest = CHR ''/''))"
        "c = CHR ''.'' \<and> hd rest = CHR ''.'' \<and> (tl rest = [] \<or> hd (tl rest) = CHR ''/'')"
    | (real) "c \<noteq> CHR ''/''" "\<not> (c = CHR ''.'' \<and> (rest = [] \<or> hd rest = CHR ''/''))"
        "\<not> (c = CHR ''.'' \<and> hd rest = CHR ''.'' \<and> (tl rest = [] \<or> hd (tl rest) = CHR ''/''))"
    by blast
  then show ?case
  proof cases
    case slash
    then show ?thesis
      using "2.IH"(1) by (simp add: clean_loop_slash IsPathSeparator_def)
  next
    case dot
    have "clean_loop rooted (CHR ''.'' # rest @ ?q) st = clean_loop rooted (rest @ ?q) st"
      using dot by (intro clean_loop_dot) (auto simp: hd_append)
    moreover have "clean_loop rooted (CHR ''.'' # rest) st = clean_loop rooted rest st"
      using dot by (intro clean_loop_dot) auto
    ultimately show ?thesis
      using dot "2.IH"(2) by (simp add: IsPathSeparator_def)
  next
    case dotdot
    then have ne: "rest \<noteq> []" by auto
    have "clean_loop rooted (CHR ''.'' # rest @ ?q) st =
            clean_loop rooted (tl (rest @ ?q)) (dotdot_elem rooted st)"
      using dotdot ne by (intro clean_loop_dotdot) (auto simp: hd_append)
    moreover have "clean_loop rooted (CHR ''.'' # rest) st =
            clean_loop rooted (tl rest) (dotdot_elem rooted st)"
      using dotdot ne by (intro clean_loop_dotdot) auto
    ultimately show ?thesis
      using dotdot ne "2.IH"(3) by (simp add: IsPathSeparator_def)
  next
    case real
    have a: "clean_loop rooted (c # rest) st =
               clean_loop rooted (dropWhile (\<lambda>c. \<not> IsPathSeparator c) rest)
                 (real_elem rooted (c # rest) st)"
      using real by (intro clean_loop_real) auto
    have "clean_loop rooted (c # rest @ ?q) st =
               clean_loop rooted (dropWhile (\<lambda>c. \<not> IsPathSeparator c) (rest @ ?q))
                 (real_elem rooted (c # rest @ ?q) st)"
      using real by (intro clean_loop_real) (auto simp: hd_append)
    then have b: "clean_loop rooted ((c # rest) @ ?q) st =
               clean_loop rooted (dropWhile (\<lambda>c. \<not> IsPathSeparator c) rest @ ?q)
                 (real_elem rooted (c # rest) st)"
      using real_elem_append_sep [of rooted "c # rest" q st]
      by (simp add: dropWhile_append_stop IsPathSeparator_def)
    show ?thesis
      using real "2.IH"(4) unfolding a b by (simp add: IsPathSeparator_def)
  qed
qed


lemma canon_dd_le: "canon rooted st \<Longrightarrow> snd st \<le> length (fst st)"
  by (induction rule: canon.induct) (auto simp: clean_init_def with_slash_def)

lemma canon_rooted_hd: "canon True st \<Longrightarrow> fst st \<noteq> [] \<and> hd (fst st) = CHR ''/'' \<and> snd st = 1"
  by (induction rule: canon.induct) (auto simp: clean_init_def with_slash_def)

lemma canon_unrooted_hd: "canon False st \<Longrightarrow> fst st \<noteq> [] \<Longrightarrow> hd (fst st) \<noteq> CHR ''/''"
proof (induction rule: canon.induct)
  case canon_init
  then show ?case by (simp add: clean_init_def)
next
  case (canon_dotdot out dd)
  then show ?case by (auto simp: with_slash_def hd_append)
next
  case (canon_real out dd e)
  have "hd e \<noteq> CHR ''/''"
    using canon_real(2) by (cases e) (auto simp: real_name_def)
  then show ?case
    using canon_real by (auto simp: with_slash_def hd_append)
qed

lemma real_elem_real_name:
  assumes "real_name e"
  shows "real_elem rooted e (out, dd) = (with_slash rooted out @ e, dd)"
proof -
  have "takeWhile (\<lambda>c. \<not> IsPathSeparator c) e = e"
    using assms by (auto simp: real_name_def IsPathSeparator_def)
  then show ?thesis
    by (simp add: real_elem_def with_slash_def)
qed

lemma backtrack_down:
  "CHR ''/'' \<notin> set e \<Longrightarrow> dd \<le> length pre \<Longrightarrow> k < length e \<Longrightarrow>
   backtrack (pre @ e) dd (length pre + k) = backtrack (pre @ e) dd (length pre)"
proof (induction k)
  case 0
  show ?case by simp
next
  case (Suc k)
  have "(pre @ e) ! (length pre + Suc k) = e ! Suc k"
    by (simp add: nth_append)
  moreover have "e ! Suc k \<noteq> CHR ''/''"
    using Suc.prems by (metis nth_mem)
  ultimately have "backtrack (pre @ e) dd (length pre + Suc k) =
      backtrack (pre @ e) dd (length pre + k)"
    using Suc.prems by (subst backtrack.simps) (simp add: IsPathSeparator_def)
  then show ?case using Suc by simp
qed

lemma backtrack_stop_dotdot: "backtrack out dd dd = dd"
  by (subst backtrack.simps) simp

lemma backtrack_stop_slash:
  "w < length out \<Longrightarrow> out ! w = CHR ''/'' \<Longrightarrow> backtrack out dd w = w"
  by (subst backtrack.simps) (simp add: IsPathSeparator_def)

lemma backtrack_real:
  assumes e: "real_name e" and dd: "dd \<le> length out"
    and one: "rooted \<and> length out = 1 \<longrightarrow> dd = 1" and zero: "\<not> rooted \<and> out = [] \<longrightarrow> dd = 0"
  shows "take (backtrack (with_slash rooted out @ e) dd (length (with_slash rooted out @ e) - 1))
           (with_slash rooted out @ e) = out"
proof -
  let ?pre = "with_slash rooted out"
  have ne: "e \<noteq> []" and ns: "CHR ''/'' \<notin> set e"
    using e by (auto simp: real_name_def)
  have ddpre: "dd \<le> length ?pre"
    using dd by (simp add: with_slash_def)
  have "length (?pre @ e) - 1 = length ?pre + (length e - 1)"
    using ne by (cases e) auto
  then have down: "backtrack (?pre @ e) dd (length (?pre @ e) - 1) = backtrack (?pre @ e) dd (length ?pre)"
    using backtrack_down [OF ns ddpre, of "length e - 1"] ne by simp
  show ?thesis
  proof (cases "?pre = out")
    case True
    then have "dd = length out"
      using one zero dd by (auto simp: with_slash_def split: if_splits)
    then show ?thesis
      using down True by (simp add: backtrack_stop_dotdot)
  next
    case False
    then have pre: "?pre = out @ ''/''"
      by (auto simp: with_slash_def split: if_splits)
    have "(?pre @ e) ! length ?pre = hd e"
      using ne by (cases e) (auto simp: nth_append)
    moreover have "hd e \<noteq> CHR ''/''"
      using ne ns by (cases e) auto
    ultimately have "backtrack (?pre @ e) dd (length ?pre) = backtrack (?pre @ e) dd (length ?pre - 1)"
      using dd pre by (subst backtrack.simps) (simp add: IsPathSeparator_def)
    also have "\<dots> = length out"
      using pre ne by (simp add: backtrack_stop_slash nth_append)
    finally show ?thesis
      using down pre by simp
  qed
qed

lemma canon_backtrack:
  assumes "canon rooted (out, dd)" and "dd < length out"
  shows "canon rooted (take (backtrack out dd (length out - 1)) out, dd)"
  using assms
proof (cases rule: canon.cases)
  case canon_init
  then show ?thesis using assms(2) by (auto simp: clean_init_def split: if_splits)
next
  case (canon_dotdot out' dd')
  then show ?thesis using assms(2) by auto
next
  case (canon_real out' e)
  have dd: "dd \<le> length out'"
    using canon_dd_le [OF canon_real(2)] by simp
  have one: "rooted \<and> length out' = 1 \<longrightarrow> dd = 1"
    using canon_rooted_hd [of "(out', dd)"] canon_real(2) by auto
  have zero: "\<not> rooted \<and> out' = [] \<longrightarrow> dd = 0"
    using dd by auto
  show ?thesis
    using backtrack_real [OF canon_real(3) dd one zero] canon_real(1,2) by simp
qed

lemma canon_dotdot_elem: "canon rooted st \<Longrightarrow> canon rooted (dotdot_elem rooted st)"
proof (cases st)
  case (Pair out dd)
  assume c: "canon rooted st"
  show ?thesis
  proof (cases "dd < length out")
    case True
    then show ?thesis
      using canon_backtrack [of rooted out dd] c Pair by (simp add: dotdot_elem_def)
  next
    case False
    show ?thesis
    proof (cases rooted)
      case True
      then show ?thesis using False c Pair by (simp add: dotdot_elem_def)
    next
      case nr: False
      have "dotdot_elem rooted st =
              (with_slash rooted out @ ''..'', length (with_slash rooted out @ ''..''))"
        using False nr Pair by (simp add: dotdot_elem_def with_slash_def Let_def)
      then show ?thesis
        using canon_dotdot [of rooted out dd] c Pair False nr by simp
    qed
  qed
qed

lemma takeWhile_real_name:
  assumes "c \<noteq> CHR ''/''"
    and "\<not> (c = CHR ''.'' \<and> (rest = [] \<or> hd rest = CHR ''/''))"
    and "\<not> (c = CHR ''.'' \<and> hd rest = CHR ''.'' \<and> (tl rest = [] \<or> hd (tl rest) = CHR ''/''))"
  shows "real_name (takeWhile (\<lambda>c. \<not> IsPathSeparator c) (c # rest))"
proof -
  let ?t = "takeWhile (\<lambda>c. c \<noteq> CHR ''/'')"
  have a: "?t (c # rest) = c # ?t rest" using assms(1) by simp
  have b: "CHR ''/'' \<notin> set (?t (c # rest))"
    using set_takeWhileD [of "CHR ''/''" "\<lambda>c. c \<noteq> CHR ''/''" "c # rest"] by blast
  have c: "?t (c # rest) \<noteq> ''.''"
  proof
    assume "?t (c # rest) = ''.''"
    then have "c = CHR ''.''" and "?t rest = []" using a by auto
    then have "c = CHR ''.'' \<and> (rest = [] \<or> hd rest = CHR ''/'')"
      by (cases rest) (auto split: if_splits)
    then show False using assms(2) by simp
  qed
  have d: "?t (c # rest) \<noteq> ''..''"
  proof
    assume "?t (c # rest) = ''..''"
    then have 1: "c = CHR ''.''" and 2: "?t rest = ''.''" using a by auto
    from 2 obtain r rs where rest: "rest = r # rs" by (cases rest) auto
    with 2 have "r = CHR ''.''" and "?t rs = []" by (auto split: if_splits)
    then have "hd rest = CHR ''.'' \<and> (tl rest = [] \<or> hd (tl rest) = CHR ''/'')"
      using rest by (cases rs) (auto split: if_splits)
    then show False using assms(3) 1 by simp
  qed
  show ?thesis
    using a b c d by (simp add: real_name_def IsPathSeparator_def)
qed

lemma canon_clean_loop: "canon rooted st \<Longrightarrow> canon rooted (clean_loop rooted p st)"
proof (induction rooted p st rule: clean_loop.induct)
  case (1 rooted st)
  then show ?case by simp
next
  case (2 rooted c rest st)
  consider (slash) "c = CHR ''/''"
    | (dot) "c \<noteq> CHR ''/''" "c = CHR ''.'' \<and> (rest = [] \<or> hd rest = CHR ''/'')"
    | (dotdot) "c \<noteq> CHR ''/''" "\<not> (c = CHR ''.'' \<and> (rest = [] \<or> hd rest = CHR ''/''))"
        "c = CHR ''.'' \<and> hd rest = CHR ''.'' \<and> (tl rest = [] \<or> hd (tl rest) = CHR ''/'')"
    | (real) "c \<noteq> CHR ''/''" "\<not> (c = CHR ''.'' \<and> (rest = [] \<or> hd rest = CHR ''/''))"
        "\<not> (c = CHR ''.'' \<and> hd rest = CHR ''.'' \<and> (tl rest = [] \<or> hd (tl rest) = CHR ''/''))"
    by blast
  then show ?case
  proof cases
    case slash
    then show ?thesis
      using "2.IH"(1) "2.prems" by (simp add: clean_loop_slash IsPathSeparator_def)
  next
    case dot
    then show ?thesis
      using "2.IH"(2) "2.prems" clean_loop_dot [of rest rooted st]
      by (simp add: IsPathSeparator_def)
  next
    case dotdot
    then have ne: "rest \<noteq> []" by auto
    show ?thesis
      using dotdot ne "2.IH"(3) canon_dotdot_elem [OF "2.prems"]
        clean_loop_dotdot [of rest rooted st]
      by (simp add: IsPathSeparator_def)
  next
    case real
    obtain out dd where st: "st = (out, dd)" by (cases st)
    have rn: "real_name (takeWhile (\<lambda>c. \<not> IsPathSeparator c) (c # rest))"
      using real by (intro takeWhile_real_name) auto
    have "real_elem rooted (c # rest) st =
            (with_slash rooted out @ takeWhile (\<lambda>c. \<not> IsPathSeparator c) (c # rest), dd)"
      by (simp add: st real_elem_def with_slash_def)
    then have "canon rooted (real_elem rooted (c # rest) st)"
      using canon_real [of rooted out dd, OF _ rn] "2.prems" st by simp
    then show ?thesis
      using real "2.IH"(4) clean_loop_real [of c rest rooted st]
      by (simp add: IsPathSeparator_def)
  qed
qed


lemma clean_loop_real_name:
  assumes "real_name e"
  shows "clean_loop rooted e st = real_elem rooted e st"
proof -
  obtain c rest where e: "e = c # rest"
    using assms by (cases e) (auto simp: real_name_def)
  have ns: "c \<noteq> CHR ''/''" "CHR ''/'' \<notin> set rest"
    using assms e by (auto simp: real_name_def)
  have hd: "rest \<noteq> [] \<Longrightarrow> hd rest \<noteq> CHR ''/''"
    using ns by (cases rest) auto
  have hdtl: "tl rest \<noteq> [] \<Longrightarrow> hd (tl rest) \<noteq> CHR ''/''"
    using ns by (cases rest; cases "tl rest") auto
  have nd: "\<not> (c = CHR ''.'' \<and> (rest = [] \<or> hd rest = CHR ''/''))"
    using assms e hd by (auto simp: real_name_def)
  have ndd: "\<not> (c = CHR ''.'' \<and> hd rest = CHR ''.'' \<and> (tl rest = [] \<or> hd (tl rest) = CHR ''/''))"
  proof
    assume a: "c = CHR ''.'' \<and> hd rest = CHR ''.'' \<and> (tl rest = [] \<or> hd (tl rest) = CHR ''/'')"
    then have "rest \<noteq> []" using nd by auto
    then have "tl rest = []" using a hdtl by auto
    then have "e = ''..''" using a e \<open>rest \<noteq> []\<close> by (cases rest) auto
    then show False using assms by (simp add: real_name_def)
  qed
  have dw: "dropWhile (\<lambda>c. \<not> IsPathSeparator c) rest = []"
    using ns by (auto simp: IsPathSeparator_def)
  show ?thesis
    unfolding e clean_loop_real [OF ns(1) nd ndd] dw by simp
qed

lemma clean_loop_dotdot_only: "clean_loop rooted ''..'' st = dotdot_elem rooted st"
  using clean_loop_dotdot [of "''.''" rooted st] by simp

lemma canon_fixed:
  "canon rooted st \<Longrightarrow>
   clean_loop rooted (if rooted then tl (fst st) else fst st) (clean_init rooted) = st"
proof (induction rule: canon.induct)
  case canon_init
  show ?case by (simp add: clean_init_def)
next
  case (canon_dotdot out dd)
  have nr: "\<not> rooted" by fact
  have IH: "clean_loop rooted out (clean_init rooted) = (out, dd)"
    using canon_dotdot.IH nr by simp
  have step: "dotdot_elem rooted (out, dd) =
      (with_slash rooted out @ ''..'', length (with_slash rooted out @ ''..''))"
    using canon_dotdot.hyps(3) nr by (simp add: dotdot_elem_def with_slash_def Let_def)
  show ?case
  proof (cases "out = []")
    case True
    then have "(out, dd) = clean_init rooted"
      using IH by simp
    then show ?thesis
      using nr True step clean_loop_dotdot_only [of rooted "(out, dd)"]
      by (simp add: with_slash_def)
  next
    case False
    have "clean_loop rooted (out @ CHR ''/'' # ''..'') (clean_init rooted) =
            clean_loop rooted (CHR ''/'' # ''..'') (out, dd)"
      using clean_loop_append_sep [of rooted out "''..''" "clean_init rooted"] IH by simp
    also have "\<dots> = dotdot_elem rooted (out, dd)"
      by (simp only: clean_loop_slash clean_loop_dotdot_only)
    finally show ?thesis
      using nr False step by (simp add: with_slash_def)
  qed
next
  case (canon_real out dd e)
  have IH: "clean_loop rooted (if rooted then tl out else out) (clean_init rooted) = (out, dd)"
    using canon_real.IH by (cases rooted) auto
  have step: "clean_loop rooted e (out, dd) = (with_slash rooted out @ e, dd)"
    using clean_loop_real_name [OF canon_real.hyps(2)] real_elem_real_name [OF canon_real.hyps(2)]
    by simp
  have ne: "rooted \<Longrightarrow> out \<noteq> []"
    using canon_rooted_hd [of "(out, dd)"] canon_real.hyps(1) by auto
  show ?case
    unfolding fst_conv
  proof (cases "with_slash rooted out = out")
    case True
    then have small: "if rooted then length out = 1 else out = []"
      by (auto simp: with_slash_def split: if_splits)
    then have "(if rooted then tl out else out) = []"
      by (cases out) (auto split: if_splits)
    then have a: "clean_init rooted = (out, dd)"
      using IH by simp
    have b: "(if rooted then tl (out @ e) else out @ e) = e"
      using small by (cases out) (auto split: if_splits)
    show "clean_loop rooted
            (if rooted then tl (with_slash rooted out @ e) else with_slash rooted out @ e)
            (clean_init rooted) = (with_slash rooted out @ e, dd)"
      unfolding True b a using step True by simp
  next
    case False
    then have ws: "with_slash rooted out = out @ ''/''"
      by (auto simp: with_slash_def split: if_splits)
    have b: "(if rooted then tl ((out @ ''/'') @ e) else (out @ ''/'') @ e) =
            (if rooted then tl out else out) @ CHR ''/'' # e"
      using ne by (cases out) auto
    have "clean_loop rooted ((if rooted then tl out else out) @ CHR ''/'' # e)
                 (clean_init rooted) = clean_loop rooted (CHR ''/'' # e) (out, dd)"
      using clean_loop_append_sep [of rooted "if rooted then tl out else out" e "clean_init rooted"]
        IH by simp
    then show "clean_loop rooted
            (if rooted then tl (with_slash rooted out @ e) else with_slash rooted out @ e)
            (clean_init rooted) = (with_slash rooted out @ e, dd)"
      unfolding ws b using step ws by (simp add: clean_loop_slash)
  qed
qed

lemma Clean_append_sep:
  assumes "p \<noteq> []"
  shows "Clean (Clean p @ CHR ''/'' # q) = Clean (p @ CHR ''/'' # q)"
proof -
  define rooted where "rooted = (hd p = CHR ''/'')"
  define p' where "p' = (if rooted then tl p else p)"
  define st where "st = clean_loop rooted p' (clean_init rooted)"
  have can: "canon rooted st"
    unfolding st_def by (rule canon_clean_loop) (rule canon_init)
  have Cp: "Clean p = (if fst st = [] then ''.'' else fst st)"
    using assms by (simp add: Clean_def Let_def IsPathSeparator_def rooted_def p'_def st_def
        clean_init_def)
  have strip: "(if rooted then tl (p @ CHR ''/'' # q) else p @ CHR ''/'' # q) = p' @ CHR ''/'' # q"
    using assms by (simp add: p'_def)
  have rhs: "Clean (p @ CHR ''/'' # q) =
      (let s = clean_loop rooted (CHR ''/'' # q) st in if fst s = [] then ''.'' else fst s)"
    using assms clean_loop_append_sep [of rooted p' q "clean_init rooted"] strip
    by (simp add: Clean_def Let_def IsPathSeparator_def rooted_def [symmetric] hd_append
        st_def clean_init_def)
  have lhs: "Clean (Clean p @ CHR ''/'' # q) =
      (let s = clean_loop rooted (CHR ''/'' # q) st in if fst s = [] then ''.'' else fst s)"
  proof (cases "fst st = []")
    case True
    then have nr: "\<not> rooted"
      using canon_rooted_hd [of st] can by (cases rooted) auto
    have "snd st = 0"
      using canon_dd_le [OF can] True by simp
    then have st0: "st = ([], 0)"
      using True by (cases st) simp
    have "Clean (''.'' @ CHR ''/'' # q) =
        (let s = clean_loop False (CHR ''/'' # q) ([], 0) in if fst s = [] then ''.'' else fst s)"
      using clean_loop_dot [of "CHR ''/'' # q" False "([], 0)"]
      by (simp add: Clean_def Let_def IsPathSeparator_def)
    then show ?thesis
      using Cp True nr st0 by simp
  next
    case False
    then have Cp': "Clean p = fst st" using Cp by simp
    have hd: "(hd (fst st) = CHR ''/'') = rooted"
      using canon_rooted_hd [of st] canon_unrooted_hd [of st] can False by (cases rooted) auto
    have ne: "fst st \<noteq> []" by fact
    have strip': "(if rooted then tl (fst st @ CHR ''/'' # q) else fst st @ CHR ''/'' # q) =
        (if rooted then tl (fst st) else fst st) @ CHR ''/'' # q"
      using ne by simp
    have "clean_loop rooted ((if rooted then tl (fst st) else fst st) @ CHR ''/'' # q)
            (clean_init rooted) = clean_loop rooted (CHR ''/'' # q) st"
      using clean_loop_append_sep [of rooted "if rooted then tl (fst st) else fst st" q
          "clean_init rooted"] canon_fixed [OF can]
      by simp
    moreover have "Clean (fst st @ CHR ''/'' # q) =
        (let s = clean_loop rooted
                   (if rooted then tl (fst st @ CHR ''/'' # q) else fst st @ CHR ''/'' # q)
                   (clean_init rooted)
         in if fst s = [] then ''.'' else fst s)"
      using ne hd by (simp add: Clean_def Let_def IsPathSeparator_def hd_append clean_init_def)
    ultimately show ?thesis
      unfolding Cp' strip' by simp
  qed
  show ?thesis
    using lhs rhs by simp
qed

lemma strings_Join_snoc:
  "es \<noteq> [] \<Longrightarrow> strings_Join (es @ [f]) sep = strings_Join es sep @ sep @ f"
  by (induction es sep rule: strings_Join.induct) auto

lemma strings_Join_nonempty: "e \<noteq> [] \<Longrightarrow> strings_Join (e # es) sep \<noteq> []"
  by (cases es) auto

lemma Join_snoc:
  "\<exists>x \<in> set es. x \<noteq> [] \<Longrightarrow> Join (es @ [f]) = Join [Join es, f]"
proof (induction es)
  case Nil
  then show ?case by simp
next
  case (Cons e es)
  show ?case
  proof (cases "e = []")
    case True
    then show ?thesis using Cons by simp
  next
    case False
    have "Join ((e # es) @ [f]) = Clean (strings_Join (e # es) ''/'' @ CHR ''/'' # f)"
      using False strings_Join_snoc [of "e # es" f "''/''"] by simp
    also have "\<dots> = Clean (Clean (strings_Join (e # es) ''/'') @ CHR ''/'' # f)"
      using Clean_append_sep [OF strings_Join_nonempty [OF False]] by simp
    also have "\<dots> = Join [Join (e # es), f]"
      using False by (simp add: Clean_nonempty)
    finally show ?thesis .
  qed
qed


lemma Clean_append_sep_loop:
  assumes "p \<noteq> []"
  shows "Clean (p @ CHR ''/'' # q) =
     (let rooted = (hd p = CHR ''/'');
          st = clean_loop rooted (if rooted then tl p else p) (clean_init rooted);
          s = clean_loop rooted (CHR ''/'' # q) st
      in if fst s = [] then ''.'' else fst s)"
proof -
  define rooted where "rooted = (hd p = CHR ''/'')"
  have strip: "(if rooted then tl (p @ CHR ''/'' # q) else p @ CHR ''/'' # q)
      = (if rooted then tl p else p) @ CHR ''/'' # q"
    using assms by simp
  show ?thesis
    using assms clean_loop_append_sep [of rooted "if rooted then tl p else p" q "clean_init rooted"]
      strip
    by (simp add: Clean_def Let_def IsPathSeparator_def rooted_def [symmetric] hd_append
        clean_init_def)
qed

lemma Join_clean_real:
  assumes cl: "Clean dir = dir" and nd: "dir \<noteq> ''.''" and nr: "dir \<noteq> ''/''"
    and rn: "real_name name"
  shows "Join [dir, name] = dir @ ''/'' @ name"
proof -
  define rooted where "rooted = (hd dir = CHR ''/'')"
  define st where "st = clean_loop rooted (if rooted then tl dir else dir) (clean_init rooted)"
  have ne: "dir \<noteq> []"
    using cl Clean_nonempty [of dir] by auto
  have "Clean dir = (if fst st = [] then ''.'' else fst st)"
    using ne by (simp add: Clean_def Let_def IsPathSeparator_def rooted_def st_def clean_init_def)
  then have fst: "fst st = dir"
    using cl nd by (auto split: if_splits)
  have ws: "with_slash rooted dir = dir @ ''/''"
  proof (cases rooted)
    case True
    have "length dir \<noteq> 1"
    proof
      assume "length dir = 1"
      then have "dir = [hd dir]" by (cases dir) auto
      then show False using True nr by (simp add: rooted_def)
    qed
    then show ?thesis using True by (simp add: with_slash_def)
  next
    case False
    then show ?thesis using ne by (simp add: with_slash_def)
  qed
  have "clean_loop rooted (CHR ''/'' # name) st = (dir @ ''/'' @ name, snd st)"
    using clean_loop_real_name [OF rn, of rooted st] real_elem_real_name [OF rn, of rooted dir "snd st"]
      fst ws
    by (cases st) (simp add: clean_loop_slash)
  then have "Clean (dir @ CHR ''/'' # name) = dir @ ''/'' @ name"
    using Clean_append_sep_loop [OF ne, of name] ne
    by (simp add: Let_def rooted_def [symmetric] st_def [symmetric])
  then show ?thesis
    using ne by simp
qed


lemma Clean_idem: "Clean (Clean p) = Clean p"
proof (cases "p = []")
  case True
  have "Clean ''.'' = ''.''"
    using clean_loop_dot [of "[]" False "([], 0)"] by (simp add: Clean_def IsPathSeparator_def)
  then show ?thesis
    using True by (simp add: Clean_def)
next
  case False
  define rooted where "rooted = (hd p = CHR ''/'')"
  define st where "st = clean_loop rooted (if rooted then tl p else p) (clean_init rooted)"
  have can: "canon rooted st"
    unfolding st_def by (rule canon_clean_loop) (rule canon_init)
  have Cp: "Clean p = (if fst st = [] then ''.'' else fst st)"
    using False by (simp add: Clean_def Let_def IsPathSeparator_def rooted_def st_def clean_init_def)
  show ?thesis
  proof (cases "fst st = []")
    case True
    have "Clean ''.'' = ''.''"
      using clean_loop_dot [of "[]" False "([], 0)"] by (simp add: Clean_def IsPathSeparator_def)
    then show ?thesis
      using Cp True by simp
  next
    case ne: False
    have hd: "(hd (fst st) = CHR ''/'') = rooted"
      using canon_rooted_hd [of st] canon_unrooted_hd [of st] can ne by (cases rooted) auto
    have "Clean (fst st) = fst st"
      using ne hd canon_fixed [OF can]
      by (simp add: Clean_def Let_def IsPathSeparator_def clean_init_def)
    then show ?thesis
      using Cp ne by simp
  qed
qed

lemma real_name_dot: "app \<noteq> [] \<Longrightarrow> app \<noteq> ''.'' \<Longrightarrow> CHR ''/'' \<notin> set app \<Longrightarrow> real_name (''.'' @ app)"
  by (simp add: real_name_def)

lemma Join_clean: "e \<noteq> [] \<Longrightarrow> Clean (Join (e # es)) = Join (e # es)"
  by (simp add: Clean_idem)

section \<open>The candidate sequences\<close>

lemma listHome_offer:
  "listHome yield home app s = offer yield [Join [home, ''lib'', app], Join [home, ''.'' @ app]] s"
  by (simp add: listHome_def split: prod.splits)

lemma candidates_eq:
  "candidates e app =
     (if xdgConfigHome e \<noteq> [] then
        Join [xdgConfigHome e, app] #
          (case userHomeDir e of
             Some home \<Rightarrow> [Join [home, ''lib'', app], Join [home, ''.'' @ app]]
           | None \<Rightarrow> [])
      else
        (case userHomeDir e of
           Some home \<Rightarrow>
             [Join [home, ''.config'', app], Join [home, ''lib'', app], Join [home, ''.'' @ app]]
         | None \<Rightarrow> []))"
  by (simp add: candidates_def list_def listWithXDG_def listWithNoXDG_def listHome_def
        append_all_def Let_def split: option.splits)

lemma list_offer: "list e app yield s = offer yield (candidates e app) s"
  by (simp add: candidates_eq list_def listWithXDG_def listWithNoXDG_def listHome_offer
        Let_def split: option.splits prod.splits)

lemma fileConfig_ListHome_offer:
  "fileConfig_ListHome cfg yield home s =
     offer yield [Join [home, ''lib'', cfg_App cfg, cfg_File cfg],
                  Join [home, ''.'' @ cfg_App cfg, cfg_File cfg],
                  Join [home, ''.'' @ cfg_App cfg @ Ext (cfg_File cfg)]] s"
  by (simp add: fileConfig_ListHome_def split: prod.splits)

lemma cfg_candidates_eq:
  "cfg_candidates e cfg =
     (if xdgConfigHome e \<noteq> [] then
        Join [xdgConfigHome e, cfg_App cfg, cfg_File cfg] #
          (case userHomeDir e of
             Some home \<Rightarrow>
               [Join [home, ''lib'', cfg_App cfg, cfg_File cfg],
                Join [home, ''.'' @ cfg_App cfg, cfg_File cfg],
                Join [home, ''.'' @ cfg_App cfg @ Ext (cfg_File cfg)]]
           | None \<Rightarrow> [])
      else
        (case userHomeDir e of
           Some home \<Rightarrow>
             [Join [home, ''.config'', cfg_App cfg, cfg_File cfg],
              Join [home, ''lib'', cfg_App cfg, cfg_File cfg],
              Join [home, ''.'' @ cfg_App cfg, cfg_File cfg],
              Join [home, ''.'' @ cfg_App cfg @ Ext (cfg_File cfg)]]
         | None \<Rightarrow> []))"
  by (simp add: cfg_candidates_def fileConfig_List_def fileConfig_ListWithXDG_def
        fileConfig_ListWithNoXDG_def fileConfig_ListHome_def
        append_all_def Let_def split: option.splits)

lemma fileConfig_List_offer: "fileConfig_List e cfg yield s = offer yield (cfg_candidates e cfg) s"
  by (simp add: cfg_candidates_eq fileConfig_List_def fileConfig_ListWithXDG_def
        fileConfig_ListWithNoXDG_def fileConfig_ListHome_offer
        Let_def split: option.splits prod.splits)

lemma Clean_nonempty2: "[] \<noteq> Clean p"
  using Clean_nonempty [of p] by simp

lemma candidates_nonempty: "c \<in> set (candidates e app) \<Longrightarrow> c \<noteq> []"
  by (auto simp: candidates_eq Clean_nonempty Clean_nonempty2 split: if_splits option.splits)

lemma cfg_candidates_nonempty: "c \<in> set (cfg_candidates e cfg) \<Longrightarrow> c \<noteq> []"
  by (auto simp: cfg_candidates_eq Clean_nonempty Clean_nonempty2 split: if_splits option.splits)

lemma offer_Dir_body:
  "\<forall>c \<in> set cs. c \<noteq> [] \<Longrightarrow>
   offer (Dir_body e) cs (fb, None) =
     (case find (dirExists e) cs of
        Some d \<Rightarrow> (if fb = [] then (if dirExists e (hd cs) then [] else hd cs) else fb, Some (d, True))
      | None \<Rightarrow> (if fb = [] then (case cs of [] \<Rightarrow> [] | c # _ \<Rightarrow> c) else fb, None))"
proof (induction cs arbitrary: fb)
  case Nil
  then show ?case by simp
next
  case (Cons c cs)
  then show ?case
    by (cases cs) (auto simp: Dir_body_def split: option.splits)
qed



section \<open>The loops of the resolver\<close>

lemma offer_File_body:
  "\<forall>c \<in> set cs. c \<noteq> [] \<Longrightarrow>
   offer (File_body e) cs (fb, None) =
     (case find (\<lambda>c. checkFile e c = FileExists) cs of
        Some f \<Rightarrow> (if fb = [] then (if checkFile e (hd cs) = FileExists then [] else hd cs) else fb,
                   Some (f, FileExists))
      | None \<Rightarrow> (if fb = [] then (case cs of [] \<Rightarrow> [] | c # _ \<Rightarrow> c) else fb, None))"
proof (induction cs arbitrary: fb)
  case Nil
  then show ?case by simp
next
  case (Cons c cs)
  then show ?case
    by (cases cs) (auto simp: File_body_def Let_def split: option.splits)
qed

lemma Dir_find:
  "Dir e app =
     (case find (dirExists e) (candidates e app) of
        Some d \<Rightarrow> (d, True)
      | None \<Rightarrow>
          (case candidates e app of
             [] \<Rightarrow> (''.'' @ app, dirExists e (''.'' @ app))
           | c # _ \<Rightarrow> (c, False)))"
proof -
  have ne: "\<forall>c \<in> set (candidates e app). c \<noteq> []"
    using candidates_nonempty by blast
  have hd: "candidates e app \<noteq> [] \<Longrightarrow> hd (candidates e app) \<noteq> []"
    using ne by (cases "candidates e app") auto
  show ?thesis
    unfolding Dir_def list_offer offer_Dir_body [OF ne]
    using hd by (cases "candidates e app") (simp_all add: Let_def split: option.splits)
qed

lemma File_find:
  "File e app name =
     (let cfg = newFileConfig app name
      in case find (\<lambda>c. checkFile e c = FileExists) (cfg_candidates e cfg) of
           Some f \<Rightarrow> (f, FileExists)
         | None \<Rightarrow>
             (case cfg_candidates e cfg of
                [] \<Rightarrow>
                  (if checkFile e (Join [''.'' @ app, cfg_File cfg]) = FileExists
                   then (Join [''.'' @ app, cfg_File cfg], FileExists)
                   else (''.'' @ app @ Ext (cfg_File cfg),
                         checkFile e (''.'' @ app @ Ext (cfg_File cfg))))
              | c # _ \<Rightarrow> (c, checkFile e c)))"
proof -
  let ?cfg = "newFileConfig app name"
  have ne: "\<forall>c \<in> set (cfg_candidates e ?cfg). c \<noteq> []"
    using cfg_candidates_nonempty by blast
  have hd: "cfg_candidates e ?cfg \<noteq> [] \<Longrightarrow> hd (cfg_candidates e ?cfg) \<noteq> []"
    using ne by (cases "cfg_candidates e ?cfg") auto
  have fnd: "find (\<lambda>c. checkFile e c = FileExists) (cfg_candidates e ?cfg) = None \<Longrightarrow>
      cfg_candidates e ?cfg \<noteq> [] \<Longrightarrow> checkFile e (hd (cfg_candidates e ?cfg)) \<noteq> FileExists"
    by (cases "cfg_candidates e ?cfg") (auto split: if_splits)
  show ?thesis
    unfolding File_def Let_def fileConfig_List_offer offer_File_body [OF ne]
    using hd fnd by (cases "cfg_candidates e ?cfg") (simp_all split: option.splits)
qed

lemma find_first_index:
  "i < length xs \<Longrightarrow> P (xs ! i) \<Longrightarrow> \<forall>j < i. \<not> P (xs ! j) \<Longrightarrow> find P xs = Some (xs ! i)"
  by (auto simp: find_Some_iff)

lemma find_none: "\<forall>x \<in> set xs. \<not> P x \<Longrightarrow> find P xs = None"
  by (auto simp: find_None_iff)

lemma file_candidates_cfg:
  "file_candidates e app name = cfg_candidates e (newFileConfig app name)"
  by (simp add: file_candidates_def cfg_candidates_def)

lemma mock_env_sel [simp]:
  "xdgConfigHome (mock_env xdg home dirs files) = xdg"
  "userHomeDir (mock_env xdg home dirs files) = home"
  "dirExists (mock_env xdg home dirs files) dir = (dir \<in> set dirs)"
  "checkFile (mock_env xdg home dirs files) path =
     (case map_of files path of Some status \<Rightarrow> status | None \<Rightarrow> NotExists)"
  by (simp_all add: mock_env_def)

lemma Join3:
  "a \<noteq> [] \<or> b \<noteq> [] \<Longrightarrow> Join [a, b, f] = Join [Join [a, b], f]"
  using Join_snoc [of "[a, b]" f] by (simp del: Join.simps)

lemma Join4:
  "a \<noteq> [] \<or> b \<noteq> [] \<or> c \<noteq> [] \<Longrightarrow> Join [a, b, c, f] = Join [Join [a, b, c], f]"
  using Join_snoc [of "[a, b, c]" f] by (simp del: Join.simps)

lemma newFileConfig_App: "cfg_App (newFileConfig app name) = app"
  by (simp add: newFileConfig_def Let_def)

lemma cfg_candidates_empty:
  "(cfg_candidates e cfg = []) = (xdgConfigHome e = [] \<and> userHomeDir e = None)"
  by (simp add: cfg_candidates_eq del: Join.simps split: option.splits)

lemma offer_logged:
  "\<exists>tr. offer (logged yield) cs (log, s) = (log @ tr, offer yield cs s)
        \<and> map fst tr = take (length tr) cs
        \<and> (\<forall>i. Suc i < length tr \<longrightarrow> snd (tr ! i))
        \<and> (\<forall>c cs'. cs = c # cs' \<and> \<not> fst (yield c s) \<longrightarrow> tr = [(c, False)])"
proof (induction cs arbitrary: log s)
  case Nil
  show ?case by simp
next
  case (Cons c cs)
  obtain ok s1 where y: "yield c s = (ok, s1)" by (cases "yield c s")
  show ?case
  proof (cases ok)
    case False
    then show ?thesis
      using y by (simp add: logged_def)
  next
    case True
    obtain tr where tr: "offer (logged yield) cs (log @ [(c, True)], s1)
          = ((log @ [(c, True)]) @ tr, offer yield cs s1)"
      "map fst tr = take (length tr) cs" "\<forall>i. Suc i < length tr \<longrightarrow> snd (tr ! i)"
      using Cons.IH [of "log @ [(c, True)]" s1] by blast
    have "\<forall>i. Suc i < length ((c, True) # tr) \<longrightarrow> snd (((c, True) # tr) ! i)"
      using tr(3) by (auto simp: nth_Cons split: nat.splits)
    moreover have "offer (logged yield) (c # cs) (log, s)
        = offer (logged yield) cs (log @ [(c, True)], s1)"
      using y True by (simp add: logged_def)
    moreover have "offer yield (c # cs) s = offer yield cs s1"
      using y True by simp
    ultimately show ?thesis
      using y True tr(1,2)
      by (intro exI [of _ "(c, True) # tr"]) (simp del: offer.simps)
  qed
qed

lemma Base_no_slash:
  assumes ns: "CHR ''/'' \<notin> set p" and ne: "p \<noteq> []"
  shows "Base p = p"
proof -
  have a: "rev (dropWhile IsPathSeparator (rev p)) = p"
    using ns ne by (cases "rev p") (auto simp: IsPathSeparator_def)
  have "takeWhile (\<lambda>c. \<not> IsPathSeparator c) (rev p) = rev p"
    using ns by (auto simp: IsPathSeparator_def)
  then have b: "rev (takeWhile (\<lambda>c. \<not> IsPathSeparator c) (rev p)) = p"
    by (simp only: rev_rev_ident)
  show ?thesis
    unfolding Base_def Let_def a b using ne by simp
qed

lemma newFileConfig_dot: "newFileConfig app ''.'' = \<lparr>cfg_App = app, cfg_File = app\<rparr>"
  by (simp add: newFileConfig_def Base_def IsPathSeparator_def Let_def)

lemma newFileConfig_slash: "newFileConfig app ''/'' = \<lparr>cfg_App = app, cfg_File = app\<rparr>"
  by (simp add: newFileConfig_def Base_def IsPathSeparator_def Let_def)

lemma newFileConfig_empty: "newFileConfig app [] = \<lparr>cfg_App = app, cfg_File = app\<rparr>"
  by (simp add: newFileConfig_def Base_def Let_def)

lemma newFileConfig_app:
  "CHR ''/'' \<notin> set app \<Longrightarrow> newFileConfig app app = \<lparr>cfg_App = app, cfg_File = app\<rparr>"
proof (cases "app = []")
  case True
  then show ?thesis by (simp add: newFileConfig_def Base_def Let_def)
next
  case False
  assume "CHR ''/'' \<notin> set app"
  then have "Base app = app"
    using False by (rule Base_no_slash)
  then show ?thesis by (simp add: newFileConfig_def Let_def)
qed

lemma File_cong:
  "newFileConfig app name1 = newFileConfig app name2 \<Longrightarrow> File e app name1 = File e app name2"
  by (simp add: File_def)

text \<open>
  On the inputs the package is meant for, joining is putting a slash between the
  segments: a home directory and an XDG base that are clean paths other than \<open>.\<close> and
  \<open>/\<close>, and an application name that is one real path element.
\<close>

lemma candidates_literal:
  assumes home: "userHomeDir e = Some home" "Clean home = home" "home \<noteq> ''.''" "home \<noteq> ''/''"
    and app: "real_name app"
  shows "xdgConfigHome e = [] \<Longrightarrow>
         candidates e app
           = [home @ ''/.config/'' @ app, home @ ''/lib/'' @ app, home @ ''/.'' @ app]"
    and "Clean (xdgConfigHome e) = xdgConfigHome e \<Longrightarrow>
         xdgConfigHome e \<noteq> ''.'' \<Longrightarrow> xdgConfigHome e \<noteq> ''/'' \<Longrightarrow>
         candidates e app
           = [xdgConfigHome e @ ''/'' @ app, home @ ''/lib/'' @ app, home @ ''/.'' @ app]"
proof -
  have hne: "home \<noteq> []"
    using home(2) Clean_nonempty [of home] by auto
  have dotapp: "real_name (''.'' @ app)"
    using app by (intro real_name_dot) (auto simp: real_name_def)
  have seg: "real_name ''lib''" "real_name ''.config''"
    by (simp_all add: real_name_def)
  have sub: "Join [home, d] = home @ ''/'' @ d \<and> Clean (home @ ''/'' @ d) = home @ ''/'' @ d
      \<and> home @ ''/'' @ d \<noteq> ''.'' \<and> home @ ''/'' @ d \<noteq> ''/''" if "real_name d" for d
  proof -
    have j: "Join [home, d] = home @ ''/'' @ d"
      using home(2,3,4) that by (rule Join_clean_real)
    have "Clean (Join [home, d]) = Join [home, d]"
      using hne by (rule Join_clean)
    then show ?thesis
      using j hne by (cases home) auto
  qed
  have 2: "Join [home, ''lib'', app] = home @ ''/lib/'' @ app"
    using Join3 [of home "''lib''" app] sub [OF seg(1)]
      Join_clean_real [of "home @ ''/'' @ ''lib''" app] app hne
    by (simp del: Join.simps)
  have 3: "Join [home, ''.config'', app] = home @ ''/.config/'' @ app"
    using Join3 [of home "''.config''" app] sub [OF seg(2)]
      Join_clean_real [of "home @ ''/'' @ ''.config''" app] app hne
    by (simp del: Join.simps)
  have 4: "Join [home, ''.'' @ app] = home @ ''/.'' @ app"
    using Join_clean_real [OF home(2,3,4) dotapp] by simp
  show "candidates e app
           = [home @ ''/.config/'' @ app, home @ ''/lib/'' @ app, home @ ''/.'' @ app]"
    if "xdgConfigHome e = []"
    using that home(1) 2 3 4 by (simp add: candidates_eq del: Join.simps)
  show "candidates e app
           = [xdgConfigHome e @ ''/'' @ app, home @ ''/lib/'' @ app, home @ ''/.'' @ app]"
    if x: "Clean (xdgConfigHome e) = xdgConfigHome e"
      "xdgConfigHome e \<noteq> ''.''" "xdgConfigHome e \<noteq> ''/''"
  proof -
    have xne: "xdgConfigHome e \<noteq> []"
      using x(1) Clean_nonempty [of "xdgConfigHome e"] by auto
    have 1: "Join [xdgConfigHome e, app] = xdgConfigHome e @ ''/'' @ app"
      using x app by (rule Join_clean_real)
    show ?thesis
      using xne home(1) 1 2 4 by (simp add: candidates_eq del: Join.simps)
  qed
qed

section \<open>The resolver\<close>

text \<open>
  Claim C1. For every application name and every directory predicate, \<open>Dir\<close> returns the
  earliest candidate of the generated sequence for which the predicate reports true,
  paired with true: a candidate at index \<open>i\<close> that exists, with no existing candidate
  before it, is the result. If the sequence is not empty and the predicate reports false
  for every candidate, \<open>Dir\<close> returns the first candidate, paired with false.
\<close>

theorem Dir_returns_earliest_existing:
  "(\<forall>i < length (candidates e app).
      dirExists e (candidates e app ! i) \<and> (\<forall>j < i. \<not> dirExists e (candidates e app ! j))
      \<longrightarrow> Dir e app = (candidates e app ! i, True))
   \<and> (candidates e app \<noteq> [] \<and> (\<forall>c \<in> set (candidates e app). \<not> dirExists e c)
      \<longrightarrow> Dir e app = (hd (candidates e app), False))"
proof (intro conjI allI impI)
  fix i
  assume "i < length (candidates e app)"
    and "dirExists e (candidates e app ! i) \<and> (\<forall>j < i. \<not> dirExists e (candidates e app ! j))"
  then have "find (dirExists e) (candidates e app) = Some (candidates e app ! i)"
    by (intro find_first_index) auto
  then show "Dir e app = (candidates e app ! i, True)"
    by (simp add: Dir_find)
next
  assume a: "candidates e app \<noteq> [] \<and> (\<forall>c \<in> set (candidates e app). \<not> dirExists e c)"
  then have "find (dirExists e) (candidates e app) = None"
    by (intro find_none) auto
  then show "Dir e app = (hd (candidates e app), False)"
    using a by (cases "candidates e app") (auto simp: Dir_find)
qed

theorem Dir_returns_earliest_existing_witness:
  "candidates (mock_env ''/mock/xdg'' (Some ''/mock/home'')
       [''/mock/home/lib/myapp'', ''/mock/home/.myapp''] []) ''myapp''
     = [''/mock/xdg/myapp'', ''/mock/home/lib/myapp'', ''/mock/home/.myapp'']
   \<and> Dir (mock_env ''/mock/xdg'' (Some ''/mock/home'')
       [''/mock/home/lib/myapp'', ''/mock/home/.myapp''] []) ''myapp''
     = (''/mock/home/lib/myapp'', True)
   \<and> Dir (mock_env ''/mock/xdg'' (Some ''/mock/home'') [] []) ''myapp''
     = (''/mock/xdg/myapp'', False)"
proof -
  let ?e = "mock_env ''/mock/xdg'' (Some ''/mock/home'')
       [''/mock/home/lib/myapp'', ''/mock/home/.myapp''] []"
  let ?n = "mock_env ''/mock/xdg'' (Some ''/mock/home'') [] []"
  have cs: "candidates ?e ''myapp''
     = [''/mock/xdg/myapp'', ''/mock/home/lib/myapp'', ''/mock/home/.myapp'']"
    by code_simp
  have csn: "candidates ?n ''myapp''
     = [''/mock/xdg/myapp'', ''/mock/home/lib/myapp'', ''/mock/home/.myapp'']"
    by code_simp
  have 1: "Dir ?e ''myapp'' = (''/mock/home/lib/myapp'', True)"
    using Dir_returns_earliest_existing [of ?e "''myapp''", THEN conjunct1, rule_format, of 1]
    by (simp add: cs)
  have 2: "Dir ?n ''myapp'' = (''/mock/xdg/myapp'', False)"
    using Dir_returns_earliest_existing [of ?n "''myapp''", THEN conjunct2]
    by (simp add: csn)
  show ?thesis
    using cs 1 2 by simp
qed


text \<open>
  Claim C2. For every application and file name, \<open>File\<close> returns the earliest candidate
  of the generated sequence whose status is \<open>FileExists\<close>, paired with \<open>FileExists\<close>. If
  the sequence is not empty and no candidate has that status, \<open>File\<close> returns the first
  candidate paired with its own status, which is then \<open>NotExists\<close> or \<open>BaseExists\<close>.
\<close>

theorem File_returns_earliest_existing:
  "(\<forall>i < length (file_candidates e app name).
      checkFile e (file_candidates e app name ! i) = FileExists
      \<and> (\<forall>j < i. checkFile e (file_candidates e app name ! j) \<noteq> FileExists)
      \<longrightarrow> File e app name = (file_candidates e app name ! i, FileExists))
   \<and> (file_candidates e app name \<noteq> []
       \<and> (\<forall>c \<in> set (file_candidates e app name). checkFile e c \<noteq> FileExists)
      \<longrightarrow> File e app name
            = (hd (file_candidates e app name), checkFile e (hd (file_candidates e app name)))
          \<and> (snd (File e app name) = NotExists \<or> snd (File e app name) = BaseExists))"
proof (intro conjI allI impI)
  let ?cs = "file_candidates e app name"
  let ?P = "\<lambda>c. checkFile e c = FileExists"
  {
    fix i
    assume "i < length ?cs"
      and "checkFile e (?cs ! i) = FileExists \<and> (\<forall>j < i. checkFile e (?cs ! j) \<noteq> FileExists)"
    then have "find ?P ?cs = Some (?cs ! i)"
      by (intro find_first_index) auto
    then show "File e app name = (?cs ! i, FileExists)"
      by (simp add: File_find file_candidates_cfg Let_def)
  }
  assume a: "?cs \<noteq> [] \<and> (\<forall>c \<in> set ?cs. checkFile e c \<noteq> FileExists)"
  then have "find ?P ?cs = None"
    by (intro find_none) auto
  then show r: "File e app name = (hd ?cs, checkFile e (hd ?cs))"
    using a by (cases ?cs) (auto simp: File_find file_candidates_cfg Let_def)
  have "checkFile e (hd ?cs) \<noteq> FileExists"
    using a by (cases ?cs) auto
  then show "snd (File e app name) = NotExists \<or> snd (File e app name) = BaseExists"
    unfolding r by (cases "checkFile e (hd ?cs)") auto
qed

theorem File_returns_earliest_existing_witness:
  "file_candidates (mock_env [] (Some ''/mock/home'')
       [] [(''/mock/home/lib/myapp/config.yaml'', FileExists),
           (''/mock/home/.myapp.yaml'', FileExists)]) ''myapp'' ''config.yaml''
     = [''/mock/home/.config/myapp/config.yaml'', ''/mock/home/lib/myapp/config.yaml'',
        ''/mock/home/.myapp/config.yaml'', ''/mock/home/.myapp.yaml'']
   \<and> File (mock_env [] (Some ''/mock/home'')
       [] [(''/mock/home/lib/myapp/config.yaml'', FileExists),
           (''/mock/home/.myapp.yaml'', FileExists)]) ''myapp'' ''config.yaml''
     = (''/mock/home/lib/myapp/config.yaml'', FileExists)
   \<and> File (mock_env ''/mock/xdg'' (Some ''/mock/home'')
       [] [(''/mock/xdg/myapp/config.yaml'', BaseExists)]) ''myapp'' ''config.yaml''
     = (''/mock/xdg/myapp/config.yaml'', BaseExists)"
proof -
  let ?e = "mock_env [] (Some ''/mock/home'')
       [] [(''/mock/home/lib/myapp/config.yaml'', FileExists),
           (''/mock/home/.myapp.yaml'', FileExists)]"
  let ?n = "mock_env ''/mock/xdg'' (Some ''/mock/home'')
       [] [(''/mock/xdg/myapp/config.yaml'', BaseExists)]"
  have cs: "file_candidates ?e ''myapp'' ''config.yaml''
     = [''/mock/home/.config/myapp/config.yaml'', ''/mock/home/lib/myapp/config.yaml'',
        ''/mock/home/.myapp/config.yaml'', ''/mock/home/.myapp.yaml'']"
    by code_simp
  have csn: "file_candidates ?n ''myapp'' ''config.yaml''
     = [''/mock/xdg/myapp/config.yaml'', ''/mock/home/lib/myapp/config.yaml'',
        ''/mock/home/.myapp/config.yaml'', ''/mock/home/.myapp.yaml'']"
    by code_simp
  have 1: "File ?e ''myapp'' ''config.yaml'' = (''/mock/home/lib/myapp/config.yaml'', FileExists)"
    using File_returns_earliest_existing [of ?e "''myapp''" "''config.yaml''",
        THEN conjunct1, rule_format, of 1]
    by (simp add: cs)
  have 2: "File ?n ''myapp'' ''config.yaml'' = (''/mock/xdg/myapp/config.yaml'', BaseExists)"
    using File_returns_earliest_existing [of ?n "''myapp''" "''config.yaml''", THEN conjunct2]
    by (simp add: csn)
  show ?thesis
    using cs 1 2 by simp
qed

section \<open>The candidate generator\<close>

text \<open>
  Claim C3. The directory-mode candidate sequence is: when the XDG base is not empty,
  the XDG base joined with the application name, followed, only if the home directory
  resolves, by \<open>home/lib/app\<close> and \<open>home/.app\<close>; when the XDG base is empty, only if
  the home directory resolves, \<open>home/.config/app\<close>, \<open>home/lib/app\<close> and \<open>home/.app\<close>.
  Without a home directory nothing follows the XDG candidate, and without either the
  sequence is empty. Path segments are joined as \<^verbatim>\<open>filepath.Join\<close> does.
\<close>

theorem list_candidate_order:
  "candidates e app =
     (if xdgConfigHome e \<noteq> [] then
        Join [xdgConfigHome e, app] #
          (case userHomeDir e of
             Some home \<Rightarrow> [Join [home, ''lib'', app], Join [home, ''.'' @ app]]
           | None \<Rightarrow> [])
      else
        (case userHomeDir e of
           Some home \<Rightarrow>
             [Join [home, ''.config'', app], Join [home, ''lib'', app], Join [home, ''.'' @ app]]
         | None \<Rightarrow> []))"
  by (rule candidates_eq)

theorem list_candidate_order_witness:
  "candidates (mock_env ''/mock/xdg'' (Some ''/mock/home'') [] []) ''myapp''
     = [''/mock/xdg/myapp'', ''/mock/home/lib/myapp'', ''/mock/home/.myapp'']
   \<and> candidates (mock_env ''/mock/xdg'' None [] []) ''myapp'' = [''/mock/xdg/myapp'']
   \<and> candidates (mock_env [] (Some ''/mock/home'') [] []) ''myapp''
     = [''/mock/home/.config/myapp'', ''/mock/home/lib/myapp'', ''/mock/home/.myapp'']
   \<and> candidates (mock_env [] None [] []) ''myapp'' = []"
proof -
  have j: "Join [''/mock/xdg'', ''myapp''] = ''/mock/xdg/myapp''"
    "Join [''/mock/home'', ''.config'', ''myapp''] = ''/mock/home/.config/myapp''"
    "Join [''/mock/home'', ''lib'', ''myapp''] = ''/mock/home/lib/myapp''"
    "Join [''/mock/home'', ''.myapp''] = ''/mock/home/.myapp''"
    by code_simp+
  show ?thesis
    using list_candidate_order [of "mock_env ''/mock/xdg'' (Some ''/mock/home'') [] []" "''myapp''"]
      list_candidate_order [of "mock_env ''/mock/xdg'' None [] []" "''myapp''"]
      list_candidate_order [of "mock_env [] (Some ''/mock/home'') [] []" "''myapp''"]
      list_candidate_order [of "mock_env [] None [] []" "''myapp''"]
    by (simp add: mock_env_def j del: Join.simps)
qed


text \<open>
  Claim C4. The file-mode candidate sequence is the directory-mode sequence with the
  normalized file name joined onto every directory candidate, plus, in the home tier, one
  more candidate \<open>home/.app\<close> followed directly by the extension: it comes right after
  \<open>home/.app/name\<close> and ends the sequence. The extension is that of the normalized file
  name (the \<^verbatim>\<open>File\<close> field of the configuration), not of the name the caller gave.
  When the home directory does not resolve there is no home tier, and so no such
  candidate.
\<close>

theorem fileConfig_List_mirrors_list:
  "file_candidates e app name =
     map (\<lambda>dir. Join [dir, cfg_File (newFileConfig app name)]) (candidates e app)
     @ (case userHomeDir e of
          Some home \<Rightarrow> [Join [home, ''.'' @ app @ Ext (cfg_File (newFileConfig app name))]]
        | None \<Rightarrow> [])
   \<and> (\<forall>home. userHomeDir e = Some home \<longrightarrow>
         (\<exists>before. file_candidates e app name =
            before @ [Join [home, ''.'' @ app, cfg_File (newFileConfig app name)],
                      Join [home, ''.'' @ app @ Ext (cfg_File (newFileConfig app name))]]))"
proof -
  let ?file = "cfg_File (newFileConfig app name)"
  have xdg: "xdgConfigHome e \<noteq> [] \<Longrightarrow>
      Join [xdgConfigHome e, app, ?file] = Join [Join [xdgConfigHome e, app], ?file]"
    by (rule Join3) simp
  have cfg: "\<And>home. Join [home, ''.config'', app, ?file] = Join [Join [home, ''.config'', app], ?file]"
    by (rule Join4) simp
  have lib: "\<And>home. Join [home, ''lib'', app, ?file] = Join [Join [home, ''lib'', app], ?file]"
    by (rule Join4) simp
  have dot: "\<And>home. Join [home, CHR ''.'' # app, ?file] = Join [Join [home, CHR ''.'' # app], ?file]"
    by (rule Join3) simp
  have eq: "file_candidates e app name =
     map (\<lambda>dir. Join [dir, ?file]) (candidates e app)
     @ (case userHomeDir e of
          Some home \<Rightarrow> [Join [home, ''.'' @ app @ Ext ?file]]
        | None \<Rightarrow> [])"
    using xdg
    by (simp add: file_candidates_cfg cfg_candidates_eq candidates_eq newFileConfig_App
          cfg lib dot del: Join.simps split: option.splits)
  have "\<exists>before. file_candidates e app name =
            before @ [Join [home, ''.'' @ app, ?file], Join [home, ''.'' @ app @ Ext ?file]]"
    if "userHomeDir e = Some home" for home
    using that
    by (simp add: file_candidates_cfg cfg_candidates_eq newFileConfig_App del: Join.simps)
  then show ?thesis
    using eq by blast
qed

theorem fileConfig_List_mirrors_list_witness:
  "candidates (mock_env ''/mock/xdg'' (Some ''/mock/home'') [] []) ''my.app''
     = [''/mock/xdg/my.app'', ''/mock/home/lib/my.app'', ''/mock/home/.my.app'']
   \<and> userHomeDir (mock_env ''/mock/xdg'' (Some ''/mock/home'') [] []) = Some ''/mock/home''
   \<and> cfg_File (newFileConfig ''my.app'' ''.'') = ''my.app''
   \<and> Ext ''my.app'' = ''.app'' \<and> Ext ''.'' = ''.''
   \<and> file_candidates (mock_env ''/mock/xdg'' (Some ''/mock/home'') [] []) ''my.app'' ''.''
     = [''/mock/xdg/my.app/my.app'', ''/mock/home/lib/my.app/my.app'',
        ''/mock/home/.my.app/my.app'', ''/mock/home/.my.app.app'']"
proof -
  let ?e = "mock_env ''/mock/xdg'' (Some ''/mock/home'') [] []"
  have cs: "candidates ?e ''my.app''
     = [''/mock/xdg/my.app'', ''/mock/home/lib/my.app'', ''/mock/home/.my.app'']"
    by code_simp
  have f: "cfg_File (newFileConfig ''my.app'' ''.'') = ''my.app''"
    by code_simp
  have x: "Ext ''my.app'' = ''.app''" "Ext ''.'' = ''.''"
    by code_simp+
  have h: "userHomeDir ?e = Some ''/mock/home''"
    by simp
  have j: "Join [''/mock/xdg/my.app'', ''my.app''] = ''/mock/xdg/my.app/my.app''"
    "Join [''/mock/home/lib/my.app'', ''my.app''] = ''/mock/home/lib/my.app/my.app''"
    "Join [''/mock/home/.my.app'', ''my.app''] = ''/mock/home/.my.app/my.app''"
    "Join [''/mock/home'', ''.my.app.app''] = ''/mock/home/.my.app.app''"
    by code_simp+
  have "file_candidates ?e ''my.app'' ''.''
     = [''/mock/xdg/my.app/my.app'', ''/mock/home/lib/my.app/my.app'',
        ''/mock/home/.my.app/my.app'', ''/mock/home/.my.app.app'']"
    using fileConfig_List_mirrors_list [of ?e "''my.app''" "''.''", THEN conjunct1]
    by (simp add: cs f x h j del: Join.simps)
  then show ?thesis
    using cs f x h by simp
qed

section \<open>The local fallback\<close>

text \<open>
  Claim C5. When the XDG base is empty and the home directory does not resolve, the
  generator yields nothing, and \<open>Dir\<close> returns \<open>.app\<close> paired with what the directory
  predicate reports for that path: the result is a value, never an error, and the boolean
  is true when \<open>.app\<close> exists. When the XDG base is set the generator yields at least
  one candidate, and the result is decided by the candidates alone.
\<close>

theorem Dir_local_fallback:
  "(xdgConfigHome e = [] \<and> userHomeDir e = None \<longrightarrow>
      candidates e app = [] \<and> Dir e app = (''.'' @ app, dirExists e (''.'' @ app)))
   \<and> (xdgConfigHome e \<noteq> [] \<longrightarrow>
      candidates e app \<noteq> []
      \<and> Dir e app =
          (case find (dirExists e) (candidates e app) of
             Some dir \<Rightarrow> (dir, True)
           | None \<Rightarrow> (hd (candidates e app), False)))"
proof (intro conjI impI)
  assume a: "xdgConfigHome e = [] \<and> userHomeDir e = None"
  then show "candidates e app = []"
    by (simp add: candidates_eq)
  then show "Dir e app = (''.'' @ app, dirExists e (''.'' @ app))"
    by (simp add: Dir_find)
next
  assume a: "xdgConfigHome e \<noteq> []"
  then show ne: "candidates e app \<noteq> []"
    by (simp add: candidates_eq)
  then show "Dir e app =
          (case find (dirExists e) (candidates e app) of
             Some dir \<Rightarrow> (dir, True)
           | None \<Rightarrow> (hd (candidates e app), False))"
    by (cases "candidates e app") (simp_all add: Dir_find split: option.splits)
qed

theorem Dir_local_fallback_witness:
  "Dir (mock_env [] None [''.myapp''] []) ''myapp'' = (''.myapp'', True)
   \<and> Dir (mock_env [] None [] []) ''myapp'' = (''.myapp'', False)
   \<and> candidates (mock_env ''/mock/xdg'' None [''.myapp''] []) ''myapp'' = [''/mock/xdg/myapp'']
   \<and> Dir (mock_env ''/mock/xdg'' None [''.myapp''] []) ''myapp'' = (''/mock/xdg/myapp'', False)"
proof -
  let ?x = "mock_env ''/mock/xdg'' None [''.myapp''] []"
  have cs: "candidates ?x ''myapp'' = [''/mock/xdg/myapp'']"
    by code_simp
  have 1: "Dir (mock_env [] None [''.myapp''] []) ''myapp'' = (''.myapp'', True)"
    using Dir_local_fallback [of "mock_env [] None [''.myapp''] []" "''myapp''", THEN conjunct1]
    by simp
  have 2: "Dir (mock_env [] None [] []) ''myapp'' = (''.myapp'', False)"
    using Dir_local_fallback [of "mock_env [] None [] []" "''myapp''", THEN conjunct1]
    by simp
  have 3: "Dir ?x ''myapp'' = (''/mock/xdg/myapp'', False)"
    using Dir_local_fallback [of ?x "''myapp''", THEN conjunct2]
    by (simp add: cs)
  show ?thesis
    using cs 1 2 3 by simp
qed

text \<open>
  Claim C6. The generator yields no file candidate exactly when the XDG base is empty
  and the home directory does not resolve. Then \<open>File\<close> checks \<open>.app\<close> joined with the
  normalized file name and returns it with \<open>FileExists\<close> if that is its status; otherwise
  it returns \<open>.app\<close> followed by the extension of the normalized file name, paired with
  what the predicate reports for that path, which may be \<open>FileExists\<close>.
\<close>

theorem File_local_fallback:
  "(file_candidates e app name = []) = (xdgConfigHome e = [] \<and> userHomeDir e = None)
   \<and> (file_candidates e app name = [] \<longrightarrow>
        File e app name =
          (if checkFile e (Join [''.'' @ app, cfg_File (newFileConfig app name)]) = FileExists
           then (Join [''.'' @ app, cfg_File (newFileConfig app name)], FileExists)
           else (''.'' @ app @ Ext (cfg_File (newFileConfig app name)),
                 checkFile e (''.'' @ app @ Ext (cfg_File (newFileConfig app name))))))"
proof (intro conjI impI)
  show "(file_candidates e app name = []) = (xdgConfigHome e = [] \<and> userHomeDir e = None)"
    by (simp add: file_candidates_cfg cfg_candidates_empty)
next
  assume "file_candidates e app name = []"
  then have "cfg_candidates e (newFileConfig app name) = []"
    by (simp add: file_candidates_cfg)
  then show "File e app name =
          (if checkFile e (Join [''.'' @ app, cfg_File (newFileConfig app name)]) = FileExists
           then (Join [''.'' @ app, cfg_File (newFileConfig app name)], FileExists)
           else (''.'' @ app @ Ext (cfg_File (newFileConfig app name)),
                 checkFile e (''.'' @ app @ Ext (cfg_File (newFileConfig app name)))))"
    by (simp add: File_find Let_def del: Join.simps)
qed

theorem File_local_fallback_witness:
  "file_candidates (mock_env [] None [] [(''.myapp/config.yaml'', FileExists)])
      ''myapp'' ''config.yaml'' = []
   \<and> File (mock_env [] None [] [(''.myapp/config.yaml'', FileExists)]) ''myapp'' ''config.yaml''
       = (''.myapp/config.yaml'', FileExists)
   \<and> File (mock_env [] None [] [(''.myapp.yaml'', FileExists)]) ''myapp'' ''config.yaml''
       = (''.myapp.yaml'', FileExists)
   \<and> File (mock_env [] None [] [(''.myapp.yaml'', BaseExists)]) ''myapp'' ''config.yaml''
       = (''.myapp.yaml'', BaseExists)
   \<and> File (mock_env [] None [] [(''.my.app.app'', FileExists), (''.my.app.'', BaseExists)])
        ''my.app'' ''.''
       = (''.my.app.app'', FileExists)"
proof -
  have f: "cfg_File (newFileConfig ''myapp'' ''config.yaml'') = ''config.yaml''"
    "cfg_File (newFileConfig ''my.app'' ''.'') = ''my.app''"
    by code_simp+
  have x: "Ext ''config.yaml'' = ''.yaml''" "Ext ''my.app'' = ''.app''"
    by code_simp+
  have j: "Join [''.myapp'', ''config.yaml''] = ''.myapp/config.yaml''"
    "Join [''.my.app'', ''my.app''] = ''.my.app/my.app''"
    by code_simp+
  have 0: "file_candidates (mock_env [] None [] [(''.myapp/config.yaml'', FileExists)])
      ''myapp'' ''config.yaml'' = []"
    using File_local_fallback [of "mock_env [] None [] [(''.myapp/config.yaml'', FileExists)]"
        "''myapp''" "''config.yaml''", THEN conjunct1]
    by simp
  have 1: "File (mock_env [] None [] [(''.myapp/config.yaml'', FileExists)]) ''myapp'' ''config.yaml''
       = (''.myapp/config.yaml'', FileExists)"
    using File_local_fallback [of "mock_env [] None [] [(''.myapp/config.yaml'', FileExists)]"
        "''myapp''" "''config.yaml''"]
    by (simp add: f x j del: Join.simps)
  have 2: "File (mock_env [] None [] [(''.myapp.yaml'', FileExists)]) ''myapp'' ''config.yaml''
       = (''.myapp.yaml'', FileExists)"
    using File_local_fallback [of "mock_env [] None [] [(''.myapp.yaml'', FileExists)]"
        "''myapp''" "''config.yaml''"]
    by (simp add: f x j del: Join.simps)
  have 3: "File (mock_env [] None [] [(''.myapp.yaml'', BaseExists)]) ''myapp'' ''config.yaml''
       = (''.myapp.yaml'', BaseExists)"
    using File_local_fallback [of "mock_env [] None [] [(''.myapp.yaml'', BaseExists)]"
        "''myapp''" "''config.yaml''"]
    by (simp add: f x j del: Join.simps)
  have 4: "File (mock_env [] None [] [(''.my.app.app'', FileExists), (''.my.app.'', BaseExists)])
        ''my.app'' ''.'' = (''.my.app.app'', FileExists)"
    using File_local_fallback [of
        "mock_env [] None [] [(''.my.app.app'', FileExists), (''.my.app.'', BaseExists)]"
        "''my.app''" "''.''"]
    by (simp add: f x j del: Join.simps)
  show ?thesis
    using 0 1 2 3 4 by simp
qed


section \<open>Determinism\<close>

text \<open>
  Claim C7. For fixed outputs of the environment lookup, the home-directory lookup and
  the two existence predicates, two calls of \<open>Dir\<close> with the same application name, and
  two calls of \<open>File\<close> with the same application and file name, produce the same
  candidate sequences, in content and order, and the same results. The two calls are
  made in two environments that give the same outputs.
\<close>

theorem lookups_deterministic:
  assumes "xdgConfigHome e1 = xdgConfigHome e2"
    and "userHomeDir e1 = userHomeDir e2"
    and "\<forall>path. dirExists e1 path = dirExists e2 path"
    and "\<forall>path. checkFile e1 path = checkFile e2 path"
  shows "candidates e1 app = candidates e2 app
    \<and> Dir e1 app = Dir e2 app
    \<and> file_candidates e1 app name = file_candidates e2 app name
    \<and> File e1 app name = File e2 app name"
proof -
  have cs: "candidates e1 app = candidates e2 app"
    using assms(1,2) by (simp add: candidates_eq del: Join.simps)
  have fs: "cfg_candidates e1 (newFileConfig app name) = cfg_candidates e2 (newFileConfig app name)"
    using assms(1,2) by (simp add: cfg_candidates_eq del: Join.simps)
  have d: "dirExists e1 = dirExists e2" and c: "checkFile e1 = checkFile e2"
    using assms(3,4) by auto
  show ?thesis
    unfolding Dir_find File_find Let_def file_candidates_cfg cs fs d c by simp
qed


theorem lookups_deterministic_witness:
  "xdgConfigHome (mock_env ''/mock/xdg'' (Some ''/mock/home'') [''/mock/home/.myapp''] [])
     = xdgConfigHome (mock_env ''/mock/xdg'' (Some ''/mock/home'')
         [''/mock/home/.myapp'', ''/mock/home/.myapp''] [(''/nowhere'', NotExists)])
   \<and> userHomeDir (mock_env ''/mock/xdg'' (Some ''/mock/home'') [''/mock/home/.myapp''] [])
     = userHomeDir (mock_env ''/mock/xdg'' (Some ''/mock/home'')
         [''/mock/home/.myapp'', ''/mock/home/.myapp''] [(''/nowhere'', NotExists)])
   \<and> Dir (mock_env ''/mock/xdg'' (Some ''/mock/home'') [''/mock/home/.myapp''] []) ''myapp''
     = (''/mock/home/.myapp'', True)
   \<and> Dir (mock_env ''/mock/xdg'' (Some ''/mock/home'')
         [''/mock/home/.myapp'', ''/mock/home/.myapp''] [(''/nowhere'', NotExists)]) ''myapp''
     = (''/mock/home/.myapp'', True)
   \<and> File (mock_env ''/mock/xdg'' (Some ''/mock/home'') [''/mock/home/.myapp''] [])
         ''myapp'' ''config.yaml''
     = File (mock_env ''/mock/xdg'' (Some ''/mock/home'')
         [''/mock/home/.myapp'', ''/mock/home/.myapp''] [(''/nowhere'', NotExists)])
         ''myapp'' ''config.yaml''"
proof -
  let ?e1 = "mock_env ''/mock/xdg'' (Some ''/mock/home'') [''/mock/home/.myapp''] []"
  let ?e2 = "mock_env ''/mock/xdg'' (Some ''/mock/home'')
         [''/mock/home/.myapp'', ''/mock/home/.myapp''] [(''/nowhere'', NotExists)]"
  have x: "xdgConfigHome ?e1 = xdgConfigHome ?e2" and h: "userHomeDir ?e1 = userHomeDir ?e2"
    by simp_all
  have d: "\<forall>path. dirExists ?e1 path = dirExists ?e2 path"
    by simp
  have c: "\<forall>path. checkFile ?e1 path = checkFile ?e2 path"
    by simp
  have 1: "Dir ?e1 ''myapp'' = (''/mock/home/.myapp'', True)"
    by code_simp
  show ?thesis
    using lookups_deterministic [OF x h d c, of "''myapp''" "''config.yaml''"] x h 1 by simp
qed

section \<open>Sentinel file names\<close>

text \<open>
  Claim C8, as stated, says that \<open>File app ''.''\<close> and \<open>File app ''/''\<close> return what a
  call that asks for a file named \<open>app\<close> returns, for every \<open>app\<close>. With a separator in
  the application name this fails: for \<open>a/b\<close> the sentinels give the file name \<open>a/b\<close>,
  while the call \<open>File ''a/b'' ''a/b''\<close> has its file name reduced to \<open>b\<close>.
\<close>

theorem File_sentinel_counterexample:
  "File (mock_env ''/mock/xdg'' None [] []) ''a/b'' ''.'' = (''/mock/xdg/a/b/a/b'', NotExists)
   \<and> File (mock_env ''/mock/xdg'' None [] []) ''a/b'' ''/'' = (''/mock/xdg/a/b/a/b'', NotExists)
   \<and> File (mock_env ''/mock/xdg'' None [] []) ''a/b'' ''a/b'' = (''/mock/xdg/a/b/b'', NotExists)
   \<and> File (mock_env ''/mock/xdg'' None [] []) ''a/b'' ''.''
        \<noteq> File (mock_env ''/mock/xdg'' None [] []) ''a/b'' ''a/b''"
proof -
  have 1: "File (mock_env ''/mock/xdg'' None [] []) ''a/b'' ''.'' = (''/mock/xdg/a/b/a/b'', NotExists)"
    by code_simp
  have 2: "File (mock_env ''/mock/xdg'' None [] []) ''a/b'' ''/'' = (''/mock/xdg/a/b/a/b'', NotExists)"
    by code_simp
  have 3: "File (mock_env ''/mock/xdg'' None [] []) ''a/b'' ''a/b'' = (''/mock/xdg/a/b/b'', NotExists)"
    by code_simp
  show ?thesis
    unfolding 1 2 3 by simp
qed

text \<open>
  Claim C8, amended. For every application name and every environment, the normalizer
  turns both sentinels \<open>.\<close> and \<open>/\<close> into the application name itself, unchanged, so
  \<open>File app ''.''\<close> and \<open>File app ''/''\<close> return the same pair; when the application
  name contains no path separator, that pair is the one \<open>File app app\<close> returns.
\<close>

theorem File_sentinel_names:
  "newFileConfig app ''.'' = \<lparr>cfg_App = app, cfg_File = app\<rparr>
   \<and> newFileConfig app ''/'' = \<lparr>cfg_App = app, cfg_File = app\<rparr>
   \<and> File e app ''.'' = File e app ''/''
   \<and> (CHR ''/'' \<notin> set app \<longrightarrow>
        File e app ''.'' = File e app app \<and> File e app ''/'' = File e app app)"
proof (intro conjI impI)
  show "newFileConfig app ''.'' = \<lparr>cfg_App = app, cfg_File = app\<rparr>"
    by (rule newFileConfig_dot)
  show "newFileConfig app ''/'' = \<lparr>cfg_App = app, cfg_File = app\<rparr>"
    by (rule newFileConfig_slash)
  show "File e app ''.'' = File e app ''/''"
    by (rule File_cong) (simp only: newFileConfig_dot newFileConfig_slash)
next
  assume ns: "CHR ''/'' \<notin> set app"
  show "File e app ''.'' = File e app app"
    by (rule File_cong) (simp only: newFileConfig_dot newFileConfig_app [OF ns])
  show "File e app ''/'' = File e app app"
    by (rule File_cong) (simp only: newFileConfig_slash newFileConfig_app [OF ns])
qed

theorem File_sentinel_names_witness:
  "CHR ''/'' \<notin> set ''myapp''
   \<and> File (mock_env ''/mock/xdg'' (Some ''/mock/home'') [] [(''/mock/xdg/myapp/myapp'', FileExists)])
        ''myapp'' ''myapp'' = (''/mock/xdg/myapp/myapp'', FileExists)
   \<and> File (mock_env ''/mock/xdg'' (Some ''/mock/home'') [] [(''/mock/xdg/myapp/myapp'', FileExists)])
        ''myapp'' ''.'' = (''/mock/xdg/myapp/myapp'', FileExists)
   \<and> File (mock_env ''/mock/xdg'' (Some ''/mock/home'') [] [(''/mock/xdg/myapp/myapp'', FileExists)])
        ''myapp'' ''/'' = (''/mock/xdg/myapp/myapp'', FileExists)"
proof -
  let ?e = "mock_env ''/mock/xdg'' (Some ''/mock/home'') [] [(''/mock/xdg/myapp/myapp'', FileExists)]"
  have ns: "CHR ''/'' \<notin> set ''myapp''"
    by simp
  have f: "File ?e ''myapp'' ''myapp'' = (''/mock/xdg/myapp/myapp'', FileExists)"
    by code_simp
  have "File ?e ''myapp'' ''.'' = File ?e ''myapp'' ''myapp''"
    and "File ?e ''myapp'' ''/'' = File ?e ''myapp'' ''myapp''"
    using File_sentinel_names [of "''myapp''" ?e] ns by blast+
  then show ?thesis
    using ns f by simp
qed

text \<open>
  Claim C10, as stated, says that \<open>File\<close> with the empty file name behaves like a
  request for a file named \<open>app\<close>, for every \<open>app\<close>. With a separator in the application
  name this fails in the same way as for the other two sentinels: the empty name gives
  the file name \<open>conf/app\<close>, the call \<open>File ''conf/app'' ''conf/app''\<close> the file name
  \<open>app\<close>.
\<close>

theorem File_empty_name_counterexample:
  "File (mock_env [] (Some ''/home/u'') [] [(''/home/u/lib/conf/app/app'', FileExists)])
      ''conf/app'' [] = (''/home/u/.config/conf/app/conf/app'', NotExists)
   \<and> File (mock_env [] (Some ''/home/u'') [] [(''/home/u/lib/conf/app/app'', FileExists)])
      ''conf/app'' ''conf/app'' = (''/home/u/lib/conf/app/app'', FileExists)
   \<and> File (mock_env [] (Some ''/home/u'') [] [(''/home/u/lib/conf/app/app'', FileExists)])
      ''conf/app'' []
      \<noteq> File (mock_env [] (Some ''/home/u'') [] [(''/home/u/lib/conf/app/app'', FileExists)])
      ''conf/app'' ''conf/app''"
proof -
  let ?e = "mock_env [] (Some ''/home/u'') [] [(''/home/u/lib/conf/app/app'', FileExists)]"
  have 1: "File ?e ''conf/app'' [] = (''/home/u/.config/conf/app/conf/app'', NotExists)"
    by code_simp
  have 2: "File ?e ''conf/app'' ''conf/app'' = (''/home/u/lib/conf/app/app'', FileExists)"
    by code_simp
  show ?thesis
    unfolding 1 2 by simp
qed

text \<open>
  Claim C10, amended. \<^verbatim>\<open>filepath.Base\<close> of the empty string is \<open>.\<close>, so the normalizer
  turns the empty file name into the application name itself, unchanged, and for every
  application name and environment \<open>File\<close> with the empty name returns what it returns
  for the documented sentinels \<open>.\<close> and \<open>/\<close>; when the application name contains no path
  separator, that is what \<open>File app app\<close> returns.
\<close>

theorem File_empty_name:
  "Base [] = ''.''
   \<and> newFileConfig app [] = \<lparr>cfg_App = app, cfg_File = app\<rparr>
   \<and> File e app [] = File e app ''.''
   \<and> File e app [] = File e app ''/''
   \<and> (CHR ''/'' \<notin> set app \<longrightarrow> File e app [] = File e app app)"
proof (intro conjI impI)
  show "Base [] = ''.''"
    by (simp add: Base_def)
  show "newFileConfig app [] = \<lparr>cfg_App = app, cfg_File = app\<rparr>"
    by (rule newFileConfig_empty)
  show "File e app [] = File e app ''.''"
    by (rule File_cong) (simp only: newFileConfig_dot newFileConfig_empty)
  show "File e app [] = File e app ''/''"
    by (rule File_cong) (simp only: newFileConfig_slash newFileConfig_empty)
next
  assume ns: "CHR ''/'' \<notin> set app"
  show "File e app [] = File e app app"
    by (rule File_cong) (simp only: newFileConfig_empty newFileConfig_app [OF ns])
qed

theorem File_empty_name_witness:
  "CHR ''/'' \<notin> set ''myapp''
   \<and> File (mock_env [] None [] [(''.myapp/myapp'', FileExists)]) ''myapp'' ''myapp''
       = (''.myapp/myapp'', FileExists)
   \<and> File (mock_env [] None [] [(''.myapp/myapp'', FileExists)]) ''myapp'' []
       = (''.myapp/myapp'', FileExists)
   \<and> File (mock_env [] None [] [(''.myapp/myapp'', FileExists)]) ''myapp'' ''.''
       = (''.myapp/myapp'', FileExists)"
proof -
  let ?e = "mock_env [] None [] [(''.myapp/myapp'', FileExists)]"
  have ns: "CHR ''/'' \<notin> set ''myapp''"
    by simp
  have f: "File ?e ''myapp'' ''myapp'' = (''.myapp/myapp'', FileExists)"
    by code_simp
  have "File ?e ''myapp'' [] = File ?e ''myapp'' ''myapp''"
    and "File ?e ''myapp'' [] = File ?e ''myapp'' ''.''"
    using File_empty_name [of "''myapp''" ?e] ns by blast+
  then show ?thesis
    using ns f by simp
qed

section \<open>Early termination\<close>

text \<open>
  Claim C9. Whatever the consumer does, the generator never yields another candidate
  after the consumer has declined one: in the log of a run every answer but the last is
  true, and the paths offered are an initial part of the candidate sequence. If the
  consumer declines the first candidate, that candidate is the only one produced.
  This holds in directory mode and in file mode, and logging changes nothing for the
  consumer. The generator builds a path only to offer it at once, and the existence
  checks of \<open>Dir\<close> and \<open>File\<close> are made by the consumer when it is offered a path, so
  the log bounds both.
\<close>

theorem generator_stops_when_declined:
  "map fst (fst (list e app (logged yield) ([], s)))
     = take (length (fst (list e app (logged yield) ([], s)))) (candidates e app)
   \<and> (\<forall>i. Suc i < length (fst (list e app (logged yield) ([], s)))
          \<longrightarrow> snd (fst (list e app (logged yield) ([], s)) ! i))
   \<and> (\<forall>c cs. candidates e app = c # cs \<and> \<not> fst (yield c s)
          \<longrightarrow> fst (list e app (logged yield) ([], s)) = [(c, False)])
   \<and> snd (list e app (logged yield) ([], s)) = list e app yield s
   \<and> map fst (fst (fileConfig_List e (newFileConfig app name) (logged yield) ([], s)))
     = take (length (fst (fileConfig_List e (newFileConfig app name) (logged yield) ([], s))))
         (file_candidates e app name)
   \<and> (\<forall>i. Suc i < length (fst (fileConfig_List e (newFileConfig app name) (logged yield) ([], s)))
          \<longrightarrow> snd (fst (fileConfig_List e (newFileConfig app name) (logged yield) ([], s)) ! i))
   \<and> (\<forall>c cs. file_candidates e app name = c # cs \<and> \<not> fst (yield c s)
          \<longrightarrow> fst (fileConfig_List e (newFileConfig app name) (logged yield) ([], s))
              = [(c, False)])
   \<and> snd (fileConfig_List e (newFileConfig app name) (logged yield) ([], s))
     = fileConfig_List e (newFileConfig app name) yield s"
proof -
  obtain tr where tr: "list e app (logged yield) ([], s) = (tr, list e app yield s)"
      "map fst tr = take (length tr) (candidates e app)"
      "\<forall>i. Suc i < length tr \<longrightarrow> snd (tr ! i)"
      "\<forall>c cs. candidates e app = c # cs \<and> \<not> fst (yield c s) \<longrightarrow> tr = [(c, False)]"
    using offer_logged [of yield "candidates e app" "[]" s]
    by (auto simp: list_offer)
  obtain tf where tf: "fileConfig_List e (newFileConfig app name) (logged yield) ([], s)
        = (tf, fileConfig_List e (newFileConfig app name) yield s)"
      "map fst tf = take (length tf) (file_candidates e app name)"
      "\<forall>i. Suc i < length tf \<longrightarrow> snd (tf ! i)"
      "\<forall>c cs. file_candidates e app name = c # cs \<and> \<not> fst (yield c s) \<longrightarrow> tf = [(c, False)]"
    using offer_logged [of yield "file_candidates e app name" "[]" s]
    by (auto simp: fileConfig_List_offer file_candidates_cfg)
  show ?thesis
    unfolding tr(1) tf(1) fst_conv snd_conv
    using tr(2,3,4) tf(2,3,4) by blast
qed

theorem generator_stops_when_declined_witness:
  "candidates (mock_env ''/mock/xdg'' (Some ''/mock/home'') [''/mock/xdg/myapp''] []) ''myapp''
     = [''/mock/xdg/myapp'', ''/mock/home/lib/myapp'', ''/mock/home/.myapp'']
   \<and> fst (Dir_body (mock_env ''/mock/xdg'' (Some ''/mock/home'') [''/mock/xdg/myapp''] [])
           ''/mock/xdg/myapp'' ([], None)) = False
   \<and> fst (list (mock_env ''/mock/xdg'' (Some ''/mock/home'') [''/mock/xdg/myapp''] []) ''myapp''
       (logged (Dir_body (mock_env ''/mock/xdg'' (Some ''/mock/home'') [''/mock/xdg/myapp''] [])))
       ([], ([], None)))
     = [(''/mock/xdg/myapp'', False)]
   \<and> length (fst (fileConfig_List
         (mock_env [] (Some ''/mock/home'') [] [(''/mock/home/lib/myapp/config.yaml'', FileExists)])
         (newFileConfig ''myapp'' ''config.yaml'')
         (logged (File_body
            (mock_env [] (Some ''/mock/home'') [] [(''/mock/home/lib/myapp/config.yaml'', FileExists)])))
         ([], ([], None)))) = 2
   \<and> fst (fileConfig_List
         (mock_env [] (Some ''/mock/home'') [] [(''/mock/home/lib/myapp/config.yaml'', FileExists)])
         (newFileConfig ''myapp'' ''config.yaml'')
         (logged (File_body
            (mock_env [] (Some ''/mock/home'') [] [(''/mock/home/lib/myapp/config.yaml'', FileExists)])))
         ([], ([], None)))
     = [(''/mock/home/.config/myapp/config.yaml'', True),
        (''/mock/home/lib/myapp/config.yaml'', False)]"
proof -
  let ?e = "mock_env ''/mock/xdg'' (Some ''/mock/home'') [''/mock/xdg/myapp''] []"
  let ?f = "mock_env [] (Some ''/mock/home'') [] [(''/mock/home/lib/myapp/config.yaml'', FileExists)]"
  let ?log = "fst (fileConfig_List ?f (newFileConfig ''myapp'' ''config.yaml'')
                (logged (File_body ?f)) ([], ([], None)))"
  have cs: "candidates ?e ''myapp''
     = [''/mock/xdg/myapp'', ''/mock/home/lib/myapp'', ''/mock/home/.myapp'']"
    by code_simp
  have d: "fst (Dir_body ?e ''/mock/xdg/myapp'' ([], None)) = False"
    by (simp add: Dir_body_def)
  have 1: "fst (list ?e ''myapp'' (logged (Dir_body ?e)) ([], ([], None)))
     = [(''/mock/xdg/myapp'', False)]"
    using generator_stops_when_declined [of ?e "''myapp''" "Dir_body ?e" "([], None)" "[]"]
      cs d by blast
  have fs: "file_candidates ?f ''myapp'' ''config.yaml''
     = [''/mock/home/.config/myapp/config.yaml'', ''/mock/home/lib/myapp/config.yaml'',
        ''/mock/home/.myapp/config.yaml'', ''/mock/home/.myapp.yaml'']"
    by code_simp
  have len: "length ?log = 2"
    by code_simp
  have last: "?log ! 1 = (''/mock/home/lib/myapp/config.yaml'', False)"
    by code_simp
  note th = generator_stops_when_declined
      [of ?f "''myapp''" "File_body ?f" "([], None)" "''config.yaml''"]
  have paths: "map fst ?log
      = [''/mock/home/.config/myapp/config.yaml'', ''/mock/home/lib/myapp/config.yaml'']"
    using th len by (simp add: fs)
  have first: "snd (?log ! 0)"
    using th len by simp
  obtain x y where xy: "?log = [x, y]"
    using len by (auto simp: length_Suc_conv numeral_2_eq_2)
  have "x = (''/mock/home/.config/myapp/config.yaml'', True)"
    using paths first unfolding xy by (cases x) simp
  moreover have "y = (''/mock/home/lib/myapp/config.yaml'', False)"
    using last unfolding xy by simp
  ultimately have 2: "?log = [(''/mock/home/.config/myapp/config.yaml'', True),
        (''/mock/home/lib/myapp/config.yaml'', False)]"
    using xy by simp
  show ?thesis
    using cs d 1 len 2 by blast
qed

end
